theory Spec2Isabelle
  imports Main
begin

section \<open>JavaScript string operations used by the pipeline\<close>

text \<open>
  Strings are lists of 8-bit characters. The operations below are the ones the backend
  calls on command output and image names: \<^verbatim>\<open>includes\<close>, \<^verbatim>\<open>split\<close> with a
  one-character separator, \<^verbatim>\<open>trim\<close>, \<^verbatim>\<open>replace\<close> with a string pattern (first
  occurrence only) and \<^verbatim>\<open>match\<close> with a global regular expression of the shape
  \<^verbatim>\<open>/literal(.+)/g\<close>.
\<close>

fun startsWith :: "string \<Rightarrow> string \<Rightarrow> bool" where
  "startsWith s [] = True"
| "startsWith [] (p # ps) = False"
| "startsWith (c # cs) (p # ps) = (c = p \<and> startsWith cs ps)"

fun includesStr :: "string \<Rightarrow> string \<Rightarrow> bool" where
  "includesStr [] sub = (sub = [])"
| "includesStr (c # cs) sub = (startsWith (c # cs) sub \<or> includesStr cs sub)"

text \<open>\<^verbatim>\<open>s.split(c)\<close>: never empty; \<^verbatim>\<open>''.split(c)\<close> is \<^verbatim>\<open>['']\<close>.\<close>

fun split :: "char \<Rightarrow> string \<Rightarrow> string list" where
  "split c [] = [[]]"
| "split c (x # xs) =
     (if x = c then [] # split c xs
      else (case split c xs of [] \<Rightarrow> [[x]] | y # ys \<Rightarrow> (x # y) # ys))"

text \<open>
  White space and line terminators that \<^verbatim>\<open>trim\<close> strips, as far as they exist among
  8-bit characters: tab, line feed, vertical tab, form feed, carriage return, space and
  the no-break space.
\<close>

definition isWhiteSpace :: "char \<Rightarrow> bool" where
  "isWhiteSpace c \<longleftrightarrow> c \<in> set [CHR 0x09, CHR 0x0A, CHR 0x0B, CHR 0x0C, CHR 0x0D, CHR 0x20, CHR 0xA0]"

definition trim :: "string \<Rightarrow> string" where
  "trim s = rev (dropWhile isWhiteSpace (rev (dropWhile isWhiteSpace s)))"

text \<open>\<^verbatim>\<open>s.replace(pat, rep)\<close> with a string pattern replaces the first occurrence only.\<close>

fun replace :: "string \<Rightarrow> string \<Rightarrow> string \<Rightarrow> string" where
  "replace pat rep [] = (if pat = [] then rep else [])"
| "replace pat rep (c # cs) =
     (if startsWith (c # cs) pat then rep @ drop (length pat) (c # cs)
      else c # replace pat rep cs)"

text \<open>
  The dot of a regular expression matches any character but a line terminator: among
  8-bit characters, line feed and carriage return.
\<close>

definition isLineTerminator :: "char \<Rightarrow> bool" where
  "isLineTerminator c \<longleftrightarrow> c = CHR 0x0A \<or> c = CHR 0x0D"

text \<open>
  \<^verbatim>\<open>s.match(/lit(.+)/g)\<close>: all matches, scanning from the left. At a position where
  \<^verbatim>\<open>lit\<close> starts and at least one more character follows on the line, the match is
  \<^verbatim>\<open>lit\<close> and the rest of the line, and the scan goes on behind it; elsewhere the scan
  moves on by one character. JavaScript returns \<^verbatim>\<open>null\<close> where this list is empty.
\<close>

function matchAll :: "string \<Rightarrow> string \<Rightarrow> string list" where
  "matchAll lit [] = []"
| "matchAll lit (c # cs) =
     (if startsWith (c # cs) lit \<and> takeWhile (\<lambda>x. \<not> isLineTerminator x) (drop (length lit) (c # cs)) \<noteq> []
      then (lit @ takeWhile (\<lambda>x. \<not> isLineTerminator x) (drop (length lit) (c # cs)))
           # matchAll lit (drop (length lit + length (takeWhile (\<lambda>x. \<not> isLineTerminator x) (drop (length lit) (c # cs)))) (c # cs))
      else matchAll lit cs)"
  by pat_completeness auto
termination
  by (relation "measure (\<lambda>(lit, s). length s)") (auto simp: takeWhile_eq_Nil_iff)

definition dquote :: "string \<Rightarrow> string" where
  "dquote s = CHR 0x22 # s @ [CHR 0x22]"

definition squote :: "string \<Rightarrow> string" where
  "squote s = CHR 0x27 # s @ [CHR 0x27]"

section \<open>The machine the server runs on\<close>

text \<open>
  The backend touches the outside world through \<^verbatim>\<open>fs.stat\<close>, \<^verbatim>\<open>fs.pathExists\<close>,
  \<^verbatim>\<open>fs.unlink\<close> and \<^verbatim>\<open>execPromise\<close> (a promisified \<^verbatim>\<open>child_process.exec\<close>).
  The world is a file system, the state of the external tools (container engine,
  registry, \<^verbatim>\<open>tar\<close>, \<^verbatim>\<open>curl\<close>) and a log of the calls made, each with whether it
  succeeded. The log is a ghost field: no operation reads it.

  A file system entry carries what \<^verbatim>\<open>fs.stat\<close> reports and whether the operating
  system refuses to remove it (a file held open, a directory without write permission).
\<close>

record node =
  isFile :: bool
  size_bytes :: nat
  undeletable :: bool

datatype call = Exec string | Stat string | PathExists string | Unlink string

record 'x world =
  files :: "string \<rightharpoonup> node"
  tools :: 'x
  trace :: "(call \<times> bool) list"

text \<open>
  A shell is what answers a command line: given the command, the files (which it may
  read, not change) and the state of the tools, either the command fails with the
  message of the rejection (\<^verbatim>\<open>error.message\<close>) or it gives \<^verbatim>\<open>stdout\<close> and
  \<^verbatim>\<open>stderr\<close>; the tools move to a new state. A time-out is a failure.
\<close>

type_synonym 'x shell = "string \<Rightarrow> (string \<rightharpoonup> node) \<Rightarrow> 'x \<Rightarrow> (string + string \<times> string) \<times> 'x"

definition logged :: "call \<Rightarrow> bool \<Rightarrow> 'x world \<Rightarrow> 'x world" where
  "logged c ok w = w\<lparr>trace := trace w @ [(c, ok)]\<rparr>"

definition execPromise :: "'x shell \<Rightarrow> string \<Rightarrow> 'x world \<Rightarrow> (string + string \<times> string) \<times> 'x world" where
  "execPromise sh cmd w =
     (case sh cmd (files w) (tools w) of
        (Inl msg, t) \<Rightarrow> (Inl msg, logged (Exec cmd) False (w\<lparr>tools := t\<rparr>))
      | (Inr out, t) \<Rightarrow> (Inr out, logged (Exec cmd) True (w\<lparr>tools := t\<rparr>)))"

definition stat :: "string \<Rightarrow> 'x world \<Rightarrow> (string + node) \<times> 'x world" where
  "stat p w =
     (case files w p of
        None \<Rightarrow> (Inl (''ENOENT: no such file or directory, stat '' @ squote p), logged (Stat p) False w)
      | Some n \<Rightarrow> (Inr n, logged (Stat p) True w))"

definition pathExists :: "string \<Rightarrow> 'x world \<Rightarrow> bool \<times> 'x world" where
  "pathExists p w = (files w p \<noteq> None, logged (PathExists p) True w)"

text \<open>\<^verbatim>\<open>fs.unlink\<close>: \<open>None\<close> when the file was removed, the message of the rejection otherwise.\<close>

definition unlink :: "string \<Rightarrow> 'x world \<Rightarrow> string option \<times> 'x world" where
  "unlink p w =
     (case files w p of
        None \<Rightarrow> (Some (''ENOENT: no such file or directory, unlink '' @ squote p), logged (Unlink p) False w)
      | Some n \<Rightarrow>
          if undeletable n
          then (Some (''EPERM: operation not permitted, unlink '' @ squote p), logged (Unlink p) False w)
          else (None, logged (Unlink p) True (w\<lparr>files := (files w)(p := None)\<rparr>)))"

text \<open>The calls a run has added to the log of the world it started in.\<close>

definition since :: "'x world \<Rightarrow> 'x world \<Rightarrow> (call \<times> bool) list" where
  "since w w' = drop (length (trace w)) (trace w')"

section \<open>Tar Validator\<close>

record validation =
  isValid :: bool
  error :: "string option"

definition invalid :: "string \<Rightarrow> validation" where
  "invalid msg = \<lparr>isValid = False, error = Some msg\<rparr>"

definition valid :: validation where
  "valid = \<lparr>isValid = True, error = None\<rparr>"

text \<open>
  The inner \<^verbatim>\<open>try\<close> block of \<^verbatim>\<open>validateDockerTarFile\<close>: two listings of the archive;
  the second one is searched for \<^verbatim>\<open>manifest.json\<close> and \<^verbatim>\<open>.json\<close>, which only
  decides whether a warning goes to the console. Either command failing leaves the block
  through its \<^verbatim>\<open>catch\<close>.
\<close>

definition listTar :: "'x shell \<Rightarrow> string \<Rightarrow> 'x world \<Rightarrow> validation \<times> 'x world" where
  "listTar sh tarFilePath w =
     (case execPromise sh (''tar -tf '' @ dquote tarFilePath @ '' | head -10'') w of
        (Inl tarError, w1) \<Rightarrow> (invalid ''File is not a valid tar archive'', w1)
      | (Inr _, w1) \<Rightarrow>
          (case execPromise sh (''tar -tf '' @ dquote tarFilePath) w1 of
             (Inl tarError, w2) \<Rightarrow> (invalid ''File is not a valid tar archive'', w2)
           | (Inr (fullList, _), w2) \<Rightarrow>
               if \<not> includesStr fullList ''manifest.json'' \<and> \<not> includesStr fullList ''.json''
               then (valid, w2)
               else (valid, w2)))"

text \<open>
  \<^verbatim>\<open>validateDockerTarFile\<close>. The result is \<open>Inr\<close> of the returned object, or \<open>Inl\<close>
  of the message of an exception that leaves the function. A rejection of
  \<^verbatim>\<open>fs.stat\<close> is caught by the outer \<^verbatim>\<open>catch\<close>.
\<close>

definition validateDockerTarFile :: "'x shell \<Rightarrow> string \<Rightarrow> 'x world \<Rightarrow> (string + validation) \<times> 'x world" where
  "validateDockerTarFile sh tarFilePath w =
     (case stat tarFilePath w of
        (Inl msg, w1) \<Rightarrow> (Inr (invalid (''Validation failed: '' @ msg)), w1)
      | (Inr stats, w1) \<Rightarrow>
          if \<not> isFile stats then (Inr (invalid ''Uploaded file is not a valid file''), w1)
          else if size_bytes stats = 0 then (Inr (invalid ''Tar file is empty''), w1)
          else if size_bytes stats > 5 * 1024 * 1024 * 1024
          then (Inr (invalid ''Tar file is too large (max 5GB)''), w1)
          else (case listTar sh tarFilePath w1 of (v, w2) \<Rightarrow> (Inr v, w2)))"

section \<open>Image Loader\<close>

record report =
  errors :: "string list"
  warnings :: "string list"

record loadResult = report +
  images :: "string list"

text \<open>
  The second strategy of \<^verbatim>\<open>loadDockerImagesFromTar\<close>: the loop over the matches of
  \<^verbatim>\<open>/Loaded image ID: (.+)/g\<close>, with its body as a function of its own. Each id is
  inspected; the tags printed are added to \<^verbatim>\<open>results.images\<close>; the \<^verbatim>\<open>catch\<close> of
  a failed inspection adds a warning.
\<close>

definition inspectCommand :: "string \<Rightarrow> string" where
  "inspectCommand imageId =
     ''docker inspect '' @ imageId @ '' --format='' @ [CHR 0x27] @ ''{{range .RepoTags}}{{.}} {{end}}'' @ [CHR 0x27]"

definition inspectImageId :: "'x shell \<Rightarrow> string \<Rightarrow> loadResult \<Rightarrow> 'x world \<Rightarrow> loadResult \<times> 'x world" where
  "inspectImageId sh m results w =
     (let imageId = trim (replace ''Loaded image ID: '' [] m)
      in case execPromise sh (inspectCommand imageId) w of
           (Inl inspectError, w1) \<Rightarrow>
             (results\<lparr>warnings := warnings results @
                [''Loaded image with ID '' @ imageId @ '' but couldn'' @ [CHR 0x27] @ ''t determine name'']\<rparr>, w1)
         | (Inr (inspectOutput, _), w1) \<Rightarrow>
             (results\<lparr>images := images results @
                filter (\<lambda>tag. tag \<noteq> [] \<and> tag \<noteq> ''<none>'') (split CHR '' '' (trim inspectOutput))\<rparr>, w1))"

fun inspectImageIds :: "'x shell \<Rightarrow> string list \<Rightarrow> loadResult \<Rightarrow> 'x world \<Rightarrow> loadResult \<times> 'x world" where
  "inspectImageIds sh [] results w = (results, w)"
| "inspectImageIds sh (m # ms) results w =
     (case inspectImageId sh m results w of (r1, w1) \<Rightarrow> inspectImageIds sh ms r1 w1)"

text \<open>The third strategy: the images the engine lists, at most five of them.\<close>

definition imagesCommand :: string where
  "imagesCommand =
     ''docker images --format '' @ dquote ''{{.Repository}}:{{.Tag}}'' @ '' --filter '' @ dquote ''dangling=false'' @ '' | head -20''"

definition recentImages :: "'x shell \<Rightarrow> loadResult \<Rightarrow> 'x world \<Rightarrow> loadResult \<times> 'x world" where
  "recentImages sh results w =
     (case execPromise sh imagesCommand w of
        (Inl imagesError, w1) \<Rightarrow>
          (results\<lparr>warnings := warnings results @ [''Could not determine loaded images'']\<rparr>, w1)
      | (Inr (imagesOutput, _), w1) \<Rightarrow>
          (let recent = filter (\<lambda>img. img \<noteq> [] \<and> img \<noteq> ''<none>:<none>'' \<and> trim img \<noteq> [])
                               (split (CHR 0x0A) (trim imagesOutput))
           in if length recent > 0
              then (results\<lparr>warnings := warnings results @
                       [''Could not parse loaded images from docker load output, using recently available images''],
                     images := images results @ take 5 recent\<rparr>, w1)
              else (results, w1)))"

text \<open>
  The \<^verbatim>\<open>try\<close> block of \<^verbatim>\<open>loadDockerImagesFromTar\<close>: \<open>Inl\<close> is the message of an
  exception that leaves the block (the file is missing, the load command is rejected).
\<close>

definition loadStderrWarnings :: "string \<Rightarrow> string list" where
  "loadStderrWarnings stderr =
     (if stderr \<noteq> [] \<and> (includesStr stderr ''Error'' \<or> includesStr stderr ''failed'')
      then [''Docker load warning: '' @ stderr] else [])"

definition loadedImageNames :: "string \<Rightarrow> string list" where
  "loadedImageNames stdout =
     map (\<lambda>m. trim (replace ''Loaded image: '' [] m)) (matchAll ''Loaded image: '' stdout)"

definition recoverImages :: "'x shell \<Rightarrow> string \<Rightarrow> loadResult \<Rightarrow> 'x world \<Rightarrow> loadResult \<times> 'x world" where
  "recoverImages sh stdout results w =
     (let r1 = results\<lparr>images := images results @ loadedImageNames stdout\<rparr>
      in if length (images r1) = 0
         then (case inspectImageIds sh (matchAll ''Loaded image ID: '' stdout) r1 w of
                 (r2, w2) \<Rightarrow> if length (images r2) = 0 then recentImages sh r2 w2 else (r2, w2))
         else (r1, w))"

definition loadTry :: "'x shell \<Rightarrow> string \<Rightarrow> 'x world \<Rightarrow> (string + loadResult) \<times> 'x world" where
  "loadTry sh tarFilePath w =
     (case pathExists tarFilePath w of
        (found, w1) \<Rightarrow>
          if \<not> found then (Inl ''Tar file not found'', w1)
          else (case execPromise sh (''docker load -i '' @ dquote tarFilePath) w1 of
                  (Inl msg, w2) \<Rightarrow> (Inl msg, w2)
                | (Inr (stdout, stderr), w2) \<Rightarrow>
                    (case recoverImages sh stdout
                            \<lparr>errors = [], warnings = loadStderrWarnings stderr, images = []\<rparr> w2 of
                       (r, w3) \<Rightarrow>
                         if length (images r) = 0
                         then (Inr (r\<lparr>errors := errors r @
                                 [''No Docker images were successfully loaded from the tar file'']\<rparr>), w3)
                         else (Inr r, w3))))"

text \<open>\<^verbatim>\<open>loadDockerImagesFromTar\<close>: the block above under its \<^verbatim>\<open>catch\<close>, which returns.\<close>

definition loadDockerImagesFromTar :: "'x shell \<Rightarrow> string \<Rightarrow> 'x world \<Rightarrow> (string + loadResult) \<times> 'x world" where
  "loadDockerImagesFromTar sh tarFilePath w =
     (case loadTry sh tarFilePath w of
        (Inl msg, w1) \<Rightarrow>
          (Inr \<lparr>errors = [''Failed to load images from tar: '' @ msg], warnings = [], images = []\<rparr>, w1)
      | (Inr r, w1) \<Rightarrow> (Inr r, w1))"

section \<open>Registry Pusher\<close>

datatype pushStatus = success | failed

datatype pushType = original | latest

record pushOutcome =
  originalName :: string
  localName :: string
  registryUrl :: string
  tag :: string
  status :: pushStatus
  type :: pushType
  pushError :: "string option"

record pushResult = report +
  pushedImages :: "pushOutcome list"

text \<open>\<^verbatim>\<open>process.env.LOCAL_REGISTRY_URL || '100.103.254.213:5001'\<close>\<close>

definition localRegistryUrl :: "string option \<Rightarrow> string" where
  "localRegistryUrl env =
     (case env of None \<Rightarrow> ''100.103.254.213:5001''
      | Some u \<Rightarrow> if u = [] then ''100.103.254.213:5001'' else u)"

text \<open>
  \<^verbatim>\<open>imageName.includes('/') ? imageName.split('/').pop() : imageName\<close> and the
  destructuring \<^verbatim>\<open>[repoName, originalTag = 'latest'] = imageBaseName.split(':')\<close>.
  \<^verbatim>\<open>split\<close> never gives an empty array, so the first case of \<open>repoName\<close> is never taken.
\<close>

definition imageBaseName :: "string \<Rightarrow> string" where
  "imageBaseName imageName =
     (if includesStr imageName ''/'' then last (split CHR ''/'' imageName) else imageName)"

definition repoName :: "string \<Rightarrow> string" where
  "repoName imageName =
     (case split CHR '':'' (imageBaseName imageName) of [] \<Rightarrow> ''undefined'' | r # _ \<Rightarrow> r)"

definition originalTag :: "string \<Rightarrow> string" where
  "originalTag imageName =
     (case split CHR '':'' (imageBaseName imageName) of r # t # _ \<Rightarrow> t | _ \<Rightarrow> ''latest'')"

definition originalLocalImageName :: "string \<Rightarrow> string \<Rightarrow> string" where
  "originalLocalImageName url imageName = url @ ''/'' @ repoName imageName @ '':'' @ originalTag imageName"

definition latestLocalImageName :: "string \<Rightarrow> string \<Rightarrow> string" where
  "latestLocalImageName url imageName = url @ ''/'' @ repoName imageName @ '':latest''"

definition pushStderrWarnings :: "string \<Rightarrow> string \<Rightarrow> string list" where
  "pushStderrWarnings target stderr =
     (if stderr \<noteq> [] \<and> (includesStr stderr ''error'' \<or> includesStr stderr ''failed'')
      then [''Push warning for '' @ target @ '': '' @ stderr] else [])"

text \<open>The \<^verbatim>\<open>catch (pushError)\<close> block of the loop body: one error, two failed outcomes.\<close>

definition pushFailed :: "string \<Rightarrow> string \<Rightarrow> string \<Rightarrow> pushResult \<Rightarrow> pushResult" where
  "pushFailed url imageName msg results =
     results\<lparr>errors := errors results @ [''Failed to push '' @ imageName @ '': '' @ msg],
             pushedImages := pushedImages results @
               [\<lparr>originalName = imageName,
                 localName = url @ ''/'' @ repoName imageName @ '':'' @ originalTag imageName,
                 registryUrl = url, tag = originalTag imageName,
                 status = failed, type = original, pushError = Some msg\<rparr>,
                \<lparr>originalName = imageName,
                 localName = url @ ''/'' @ repoName imageName @ '':latest'',
                 registryUrl = url, tag = ''latest'',
                 status = failed, type = latest, pushError = Some msg\<rparr>]\<rparr>"

definition pushSucceeded :: "string \<Rightarrow> string \<Rightarrow> pushResult \<Rightarrow> pushResult" where
  "pushSucceeded url imageName results =
     results\<lparr>pushedImages := pushedImages results @
               [\<lparr>originalName = imageName, localName = originalLocalImageName url imageName,
                 registryUrl = url, tag = originalTag imageName,
                 status = success, type = original, pushError = None\<rparr>,
                \<lparr>originalName = imageName, localName = latestLocalImageName url imageName,
                 registryUrl = url, tag = ''latest'',
                 status = success, type = latest, pushError = None\<rparr>]\<rparr>"

definition tagCommand :: "string \<Rightarrow> string \<Rightarrow> string" where
  "tagCommand imageName target = ''docker tag '' @ dquote imageName @ '' '' @ dquote target"

definition pushCommand :: "string \<Rightarrow> string" where
  "pushCommand target = ''docker push '' @ dquote target"

definition rmiCommand :: "string \<Rightarrow> string" where
  "rmiCommand target = ''docker rmi '' @ dquote target"

text \<open>
  The body of the loop of \<^verbatim>\<open>pushImagesToLocalRegistry\<close> for one image: tag and push
  the versioned target, tag and push the latest target, record two successes, remove the
  two local tags (failures there are only logged). The first of the four commands to be
  rejected leaves the \<^verbatim>\<open>try\<close> block for \<open>pushFailed\<close>; warnings added before stay.
\<close>

definition pushImage :: "'x shell \<Rightarrow> string \<Rightarrow> string \<Rightarrow> pushResult \<Rightarrow> 'x world \<Rightarrow> pushResult \<times> 'x world" where
  "pushImage sh url imageName results w =
     (case execPromise sh (tagCommand imageName (originalLocalImageName url imageName)) w of
        (Inl msg, w1) \<Rightarrow> (pushFailed url imageName msg results, w1)
      | (Inr _, w1) \<Rightarrow>
     (case execPromise sh (pushCommand (originalLocalImageName url imageName)) w1 of
        (Inl msg, w2) \<Rightarrow> (pushFailed url imageName msg results, w2)
      | (Inr (_, originalStderr), w2) \<Rightarrow>
     (let r1 = results\<lparr>warnings := warnings results @
                 pushStderrWarnings (originalLocalImageName url imageName) originalStderr\<rparr>
      in
     (case execPromise sh (tagCommand imageName (latestLocalImageName url imageName)) w2 of
        (Inl msg, w3) \<Rightarrow> (pushFailed url imageName msg r1, w3)
      | (Inr _, w3) \<Rightarrow>
     (case execPromise sh (pushCommand (latestLocalImageName url imageName)) w3 of
        (Inl msg, w4) \<Rightarrow> (pushFailed url imageName msg r1, w4)
      | (Inr (_, latestStderr), w4) \<Rightarrow>
     (let r2 = r1\<lparr>warnings := warnings r1 @
                 pushStderrWarnings (latestLocalImageName url imageName) latestStderr\<rparr>
      in
     (case execPromise sh (rmiCommand (originalLocalImageName url imageName)) w4 of
        (_, w5) \<Rightarrow>
     (case execPromise sh (rmiCommand (latestLocalImageName url imageName)) w5 of
        (_, w6) \<Rightarrow> (pushSucceeded url imageName r2, w6)))))))))"

fun pushEach :: "'x shell \<Rightarrow> string \<Rightarrow> string list \<Rightarrow> pushResult \<Rightarrow> 'x world \<Rightarrow> pushResult \<times> 'x world" where
  "pushEach sh url [] results w = (results, w)"
| "pushEach sh url (imageName # rest) results w =
     (case pushImage sh url imageName results w of (r1, w1) \<Rightarrow> pushEach sh url rest r1 w1)"

text \<open>The advisory reachability probe before the loop.\<close>

definition probeCommand :: "string \<Rightarrow> string" where
  "probeCommand url = ''curl -f http://'' @ url @ ''/v2/ || echo '' @ dquote ''Registry not accessible via HTTP''"

definition probeRegistry :: "'x shell \<Rightarrow> string \<Rightarrow> pushResult \<Rightarrow> 'x world \<Rightarrow> pushResult \<times> 'x world" where
  "probeRegistry sh url results w =
     (case execPromise sh (probeCommand url) w of
        (Inl msg, w1) \<Rightarrow>
          (results\<lparr>warnings := warnings results @ [''Could not verify registry connectivity: '' @ msg]\<rparr>, w1)
      | (Inr (registryTest, _), w1) \<Rightarrow>
          if includesStr registryTest ''Registry not accessible''
          then (results\<lparr>warnings := warnings results @
                  [''Local registry at '' @ url @ '' may not be accessible. Proceeding with push attempts anyway.'']\<rparr>, w1)
          else (results, w1))"

text \<open>
  \<^verbatim>\<open>pushImagesToLocalRegistry\<close>. Every command runs inside an inner \<^verbatim>\<open>try\<close>, so no
  exception reaches the outer \<^verbatim>\<open>catch\<close>; the result type keeps the \<open>Inl\<close> that the
  caller's own \<^verbatim>\<open>try\<close> is written for.
\<close>

definition pushImagesToLocalRegistry :: "'x shell \<Rightarrow> string option \<Rightarrow> string list \<Rightarrow> 'x world \<Rightarrow> (string + pushResult) \<times> 'x world" where
  "pushImagesToLocalRegistry sh env imageNames w =
     (case probeRegistry sh (localRegistryUrl env) \<lparr>errors = [], warnings = [], pushedImages = []\<rparr> w of
        (r0, w1) \<Rightarrow>
          (case pushEach sh (localRegistryUrl env) imageNames r0 w1 of
             (r, w2) \<Rightarrow> (Inr r, w2)))"

section \<open>Pipeline Orchestrator\<close>

record pipelineResult = pushResult +
  loadedImages :: "string list"

record upload =
  filename :: string
  path :: string

text \<open>The push stage of \<^verbatim>\<open>processDockerTarFile\<close>, entered only with a loaded image.\<close>

definition pushStage :: "'x shell \<Rightarrow> string option \<Rightarrow> loadResult \<Rightarrow> pipelineResult \<Rightarrow> 'x world \<Rightarrow> pipelineResult \<times> 'x world" where
  "pushStage sh env loadResult results w =
     (if length (images loadResult) > 0
      then (case pushImagesToLocalRegistry sh env (images loadResult) w of
              (Inl msg, w1) \<Rightarrow>
                (results\<lparr>errors := errors results @ [''Registry push failed: '' @ msg]\<rparr>, w1)
            | (Inr pushResult, w1) \<Rightarrow>
                (results\<lparr>pushedImages := pushedImages pushResult,
                         errors := errors results @ errors pushResult,
                         warnings := warnings results @ warnings pushResult\<rparr>, w1))
      else (results\<lparr>warnings := warnings results @ [''No images were loaded from the tar file'']\<rparr>, w))"

text \<open>
  The \<^verbatim>\<open>try\<close> block of \<^verbatim>\<open>processDockerTarFile\<close>: the engine check, the loader, the
  push stage, and the removal of the uploaded file, whose failure is a warning.
\<close>

definition processTry :: "'x shell \<Rightarrow> string option \<Rightarrow> upload \<Rightarrow> 'x world \<Rightarrow> (string + pipelineResult) \<times> 'x world" where
  "processTry sh env f w =
     (case execPromise sh ''docker version'' w of
        (Inl dockerError, w1) \<Rightarrow>
          (Inl ''Docker daemon is not accessible. Ensure Docker is running and accessible from this container.'', w1)
      | (Inr _, w1) \<Rightarrow>
     (case loadDockerImagesFromTar sh (path f) w1 of
        (Inl msg, w2) \<Rightarrow> (Inl msg, w2)
      | (Inr loadResult, w2) \<Rightarrow>
     (case pushStage sh env loadResult
             \<lparr>errors = errors loadResult, warnings = warnings loadResult,
              pushedImages = [], loadedImages = images loadResult\<rparr> w2 of
        (results, w3) \<Rightarrow>
     (case unlink (path f) w3 of
        (None, w4) \<Rightarrow> (Inr results, w4)
      | (Some msg, w4) \<Rightarrow>
          (Inr (results\<lparr>warnings := warnings results @ [''Failed to cleanup tar file: '' @ msg]\<rparr>), w4)))))"

definition processDockerTarFile :: "'x shell \<Rightarrow> string option \<Rightarrow> upload \<Rightarrow> 'x world \<Rightarrow> (string + pipelineResult) \<times> 'x world" where
  "processDockerTarFile sh env f w =
     (case processTry sh env f w of
        (Inl msg, w1) \<Rightarrow> (Inl (''Docker tar processing failed: '' @ msg), w1)
      | (Inr results, w1) \<Rightarrow> (Inr results, w1))"

section \<open>The upload route\<close>

text \<open>
  What the client receives: a JSON object with \<^verbatim>\<open>error\<close> and, where given,
  \<^verbatim>\<open>details\<close>; a JSON object with \<^verbatim>\<open>message\<close>, \<^verbatim>\<open>file\<close> and
  \<^verbatim>\<open>dockerResult\<close>; or the error page of the framework for an error that no handler
  of the application takes.
\<close>

datatype responseBody =
  ErrorJson string "string option"
| ResultJson string string pipelineResult
| ErrorPage string

record response =
  statusCode :: nat
  json :: responseBody

text \<open>
  The \<^verbatim>\<open>try\<close> block of the handler of \<^verbatim>\<open>POST /api/upload-docker-tar\<close> once
  \<^verbatim>\<open>req.file\<close> is there: \<open>Inl\<close> is the message of an exception on its way to the
  handler's \<^verbatim>\<open>catch\<close>.
\<close>

definition handleUpload :: "'x shell \<Rightarrow> string option \<Rightarrow> upload \<Rightarrow> 'x world \<Rightarrow> (string + response) \<times> 'x world" where
  "handleUpload sh env f w =
     (case validateDockerTarFile sh (path f) w of
        (Inl msg, w1) \<Rightarrow> (Inl msg, w1)
      | (Inr validationResult, w1) \<Rightarrow>
          if \<not> isValid validationResult
          then (case unlink (path f) w1 of
                  (Some msg, w2) \<Rightarrow> (Inl msg, w2)
                | (None, w2) \<Rightarrow>
                    (Inr \<lparr>statusCode = 400,
                          json = ErrorJson ''Invalid Docker tar file'' (error validationResult)\<rparr>, w2))
          else (case processDockerTarFile sh env f w1 of
                  (Inl msg, w2) \<Rightarrow> (Inl msg, w2)
                | (Inr dockerResult, w2) \<Rightarrow>
                    (Inr \<lparr>statusCode = 200,
                          json = ResultJson ''Docker tar file uploaded and images processed successfully''
                                   (filename f) dockerResult\<rparr>, w2)))"

text \<open>
  The handler: \<open>req.file\<close> is what the multipart middleware left under the field
  \<^verbatim>\<open>dockerTar\<close>, if anything. The \<^verbatim>\<open>catch\<close> removes the file when its path is a
  non-empty string, ignores a failure of that removal, and answers 500.
\<close>

definition postUploadDockerTar :: "'x shell \<Rightarrow> string option \<Rightarrow> upload option \<Rightarrow> 'x world \<Rightarrow> response \<times> 'x world" where
  "postUploadDockerTar sh env reqFile w =
     (case reqFile of
        None \<Rightarrow> (\<lparr>statusCode = 400, json = ErrorJson ''No tar file uploaded'' None\<rparr>, w)
      | Some f \<Rightarrow>
          (case handleUpload sh env f w of
             (Inr res, w1) \<Rightarrow> (res, w1)
           | (Inl msg, w1) \<Rightarrow>
               (case (if path f \<noteq> [] then unlink (path f) w1 else (None, w1)) of
                  (_, w2) \<Rightarrow>
                    (\<lparr>statusCode = 500,
                      json = ErrorJson ''Failed to process Docker tar upload'' (Some msg)\<rparr>, w2))))"

section \<open>The multipart middleware and the route\<close>









section \<open>Notions used in the statements\<close>

text \<open>
  A world is quiet towards another when the files are the same and the log has only grown:
  what every step of the pipeline but \<^verbatim>\<open>fs.unlink\<close> does.
\<close>

definition quiet :: "'x world \<Rightarrow> 'x world \<Rightarrow> bool" where
  "quiet w w' \<longleftrightarrow> files w' = files w \<and> (\<exists>es. trace w' = trace w @ es)"

text \<open>
  The commands of the loop body for one image, in the order of the source: the four
  whose rejection fails the image, then the two removals of the local tags.
\<close>

definition pushSteps :: "string \<Rightarrow> string \<Rightarrow> call list" where
  "pushSteps url n =
     [Exec (tagCommand n (originalLocalImageName url n)),
      Exec (pushCommand (originalLocalImageName url n)),
      Exec (tagCommand n (latestLocalImageName url n)),
      Exec (pushCommand (latestLocalImageName url n)),
      Exec (rmiCommand (originalLocalImageName url n)),
      Exec (rmiCommand (latestLocalImageName url n))]"

text \<open>The fields of an outcome that do not depend on how the pushes went.\<close>

definition shape :: "pushOutcome \<Rightarrow> string \<times> string \<times> string \<times> string \<times> pushType" where
  "shape p = (originalName p, localName p, registryUrl p, tag p, type p)"

definition expectedShapes :: "string \<Rightarrow> string \<Rightarrow> (string \<times> string \<times> string \<times> string \<times> pushType) list" where
  "expectedShapes url n =
     [(n, originalLocalImageName url n, url, originalTag n, original),
      (n, latestLocalImageName url n, url, ''latest'', latest)]"

text \<open>Every failed outcome carries a message that the error list reports for its image.\<close>

definition failuresRecorded :: "pushResult \<Rightarrow> bool" where
  "failuresRecorded r \<longleftrightarrow>
     (\<forall>p \<in> set (pushedImages r). status p = failed \<longrightarrow>
        (\<exists>msg. pushError p = Some msg \<and>
               ''Failed to push '' @ originalName p @ '': '' @ msg \<in> set (errors r)))"

text \<open>
  The id that a match of \<^verbatim>\<open>/Loaded image ID: (.+)/g\<close> stands for, and two warnings of
  the loader.
\<close>

definition imageIdOf :: "string \<Rightarrow> string" where
  "imageIdOf m = trim (replace ''Loaded image ID: '' [] m)"

definition undeterminedWarning :: "string \<Rightarrow> string" where
  "undeterminedWarning imageId =
     ''Loaded image with ID '' @ imageId @ '' but couldn'' @ [CHR 0x27] @ ''t determine name''"

definition approximationWarning :: string where
  "approximationWarning =
     ''Could not parse loaded images from docker load output, using recently available images''"

text \<open>
  The repository and the tag of an image reference in the words of the specification: the
  last path segment is what follows the last slash; the repository is that segment up to
  its first colon; the tag is what follows that colon (up to a further colon, if any), and
  \<^verbatim>\<open>latest\<close> when the segment has no colon.
\<close>

definition lastSegment :: "string \<Rightarrow> string" where
  "lastSegment s = rev (takeWhile (\<lambda>c. c \<noteq> CHR ''/'') (rev s))"

definition segmentRepository :: "string \<Rightarrow> string" where
  "segmentRepository s = takeWhile (\<lambda>c. c \<noteq> CHR '':'') (lastSegment s)"

definition segmentTag :: "string \<Rightarrow> string" where
  "segmentTag s =
     (if CHR '':'' \<in> set (lastSegment s)
      then takeWhile (\<lambda>c. c \<noteq> CHR '':'') (tl (dropWhile (\<lambda>c. c \<noteq> CHR '':'') (lastSegment s)))
      else ''latest'')"

text \<open>
  The replies of the shell to a list of commands run one after the other, and the message
  of the first of them that is rejected.
\<close>

fun runAll :: "'x shell \<Rightarrow> string list \<Rightarrow> 'x world \<Rightarrow> (string + string \<times> string) list \<times> 'x world" where
  "runAll sh [] w = ([], w)"
| "runAll sh (c # cs) w =
     (case execPromise sh c w of
        (a, w1) \<Rightarrow> (case runAll sh cs w1 of (as, w2) \<Rightarrow> (a # as, w2)))"

fun firstRejection :: "'x shell \<Rightarrow> string list \<Rightarrow> 'x world \<Rightarrow> string option" where
  "firstRejection sh [] w = None"
| "firstRejection sh (c # cs) w =
     (case execPromise sh c w of
        (Inl msg, w1) \<Rightarrow> Some msg
      | (Inr out, w1) \<Rightarrow> firstRejection sh cs w1)"

text \<open>The four commands of an image whose rejection fails it.\<close>

definition pushStepCommands :: "string \<Rightarrow> string \<Rightarrow> string list" where
  "pushStepCommands url n =
     [tagCommand n (originalLocalImageName url n),
      pushCommand (originalLocalImageName url n),
      tagCommand n (latestLocalImageName url n),
      pushCommand (latestLocalImageName url n)]"

text \<open>
  A run of the loop body for one image, as a piece of the log, with the message of its
  rejected command if there is one: either all four commands succeed and the two removals
  follow, or the run ends with the first rejected command among the four.
\<close>

definition legalRun :: "string \<Rightarrow> string \<Rightarrow> (call \<times> bool) list \<Rightarrow> string option \<Rightarrow> bool" where
  "legalRun url n es m \<longleftrightarrow>
     (case m of
        None \<Rightarrow> (\<exists>ok5 ok6. es = zip (pushSteps url n) [True, True, True, True, ok5, ok6])
      | Some msg \<Rightarrow> (\<exists>k<4. es = zip (take (Suc k) (pushSteps url n)) (replicate k True @ [False])))"

text \<open>The two outcomes and the error of an image, given the message of its rejected command.\<close>

definition outcomesOf :: "string \<Rightarrow> string \<Rightarrow> string option \<Rightarrow> pushOutcome list" where
  "outcomesOf url n m =
     [\<lparr>originalName = n, localName = originalLocalImageName url n, registryUrl = url,
       tag = originalTag n, status = (if m = None then success else failed),
       type = original, pushError = m\<rparr>,
      \<lparr>originalName = n, localName = latestLocalImageName url n, registryUrl = url,
       tag = ''latest'', status = (if m = None then success else failed),
       type = latest, pushError = m\<rparr>]"

definition errorsOf :: "string \<Rightarrow> string option \<Rightarrow> string list" where
  "errorsOf n m = (case m of None \<Rightarrow> [] | Some msg \<Rightarrow> [''Failed to push '' @ n @ '': '' @ msg])"

text \<open>
  The strategies of the loader as functions of the raw output of the engine: the tags that
  an inspection prints, the images that the engine lists, and what a reply to an inspection
  adds to the images and to the warnings.
\<close>

definition tagsOf :: "string \<Rightarrow> string list" where
  "tagsOf inspectOutput =
     filter (\<lambda>t. t \<noteq> [] \<and> t \<noteq> ''<none>'') (split CHR '' '' (trim inspectOutput))"

definition listedImages :: "string \<Rightarrow> string list" where
  "listedImages imagesOutput =
     filter (\<lambda>img. img \<noteq> [] \<and> img \<noteq> ''<none>:<none>'' \<and> trim img \<noteq> [])
       (split (CHR 0x0A) (trim imagesOutput))"

definition inspectedTags :: "string + string \<times> string \<Rightarrow> string list" where
  "inspectedTags a = (case a of Inl msg \<Rightarrow> [] | Inr (out, err) \<Rightarrow> tagsOf out)"

definition inspectionWarnings :: "string \<times> (string + string \<times> string) \<Rightarrow> string list" where
  "inspectionWarnings ma =
     (case snd ma of Inl msg \<Rightarrow> [undeterminedWarning (imageIdOf (fst ma))] | Inr out \<Rightarrow> [])"

text \<open>
  The output of a load that prints one line for each item, and the items that such a line
  gives back unchanged: not empty, on one line, without white space at either end.
\<close>

definition outputLines :: "string \<Rightarrow> string list \<Rightarrow> string" where
  "outputLines lit items = concat (map (\<lambda>n. lit @ n @ [CHR 0x0A]) items)"

definition cleanItem :: "string \<Rightarrow> bool" where
  "cleanItem n \<longleftrightarrow>
     n \<noteq> [] \<and> (\<forall>c \<in> set n. \<not> isLineTerminator c) \<and> \<not> isWhiteSpace (hd n) \<and> \<not> isWhiteSpace (last n)"


section \<open>Concrete worlds\<close>

text \<open>
  A shell that answers from a table of command lines and lets every other command succeed
  with empty output, a world whose disk holds one file, and a world without files. The
  theorems below are run on them.
\<close>

definition scriptedShell :: "(string \<times> (string + string \<times> string)) list \<Rightarrow> unit shell" where
  "scriptedShell table cmd fs t =
     (case map_of table cmd of Some reply \<Rightarrow> (reply, t) | None \<Rightarrow> (Inr ([], []), t))"

definition disk :: "string \<Rightarrow> node \<Rightarrow> unit world" where
  "disk p n = \<lparr>files = [p \<mapsto> n], tools = (), trace = []\<rparr>"

definition emptyWorld :: "unit world" where
  "emptyWorld = \<lparr>files = Map.empty, tools = (), trace = []\<rparr>"

text \<open>
  An upload of two images: the registry rejects the versioned push of the first one.
\<close>

definition twoImagesShell :: "unit shell" where
  "twoImagesShell = scriptedShell
     [(''docker load -i '' @ dquote ''/uploads/1-two.tar'',
         Inr (''Loaded image: bad:1'' @ [CHR 0x0A] @ ''Loaded image: good:2'' @ [CHR 0x0A], [])),
      (pushCommand ''100.103.254.213:5001/bad:1'', Inl ''denied'')]"

definition twoImagesUpload :: upload where
  "twoImagesUpload = \<lparr>filename = ''1-two.tar'', path = ''/uploads/1-two.tar''\<rparr>"

definition twoImagesWorld :: "unit world" where
  "twoImagesWorld = disk ''/uploads/1-two.tar'' \<lparr>isFile = True, size_bytes = 4096, undeletable = False\<rparr>"

text \<open>
  An upload, a disk where the operating system refuses to remove its file, and one where
  it removes it.
\<close>

definition appUpload :: upload where
  "appUpload = \<lparr>filename = ''9-app.tar'', path = ''/uploads/9-app.tar''\<rparr>"

definition lockedWorld :: "unit world" where
  "lockedWorld = disk ''/uploads/9-app.tar'' \<lparr>isFile = True, size_bytes = 4096, undeletable = True\<rparr>"

definition plainWorld :: "unit world" where
  "plainWorld = disk ''/uploads/9-app.tar'' \<lparr>isFile = True, size_bytes = 4096, undeletable = False\<rparr>"

text \<open>
  A load that prints an image id whose inspection succeeds without a tag, and a shell for
  the second and third strategy: one inspection fails, one gives two tags, and the engine
  lists six images.
\<close>

definition untaggedShell :: "unit shell" where
  "untaggedShell = scriptedShell
     [(''docker load -i '' @ dquote ''/uploads/9-app.tar'',
         Inr (''Loaded image ID: sha256:abc'' @ [CHR 0x0A], [])),
      (inspectCommand ''sha256:abc'', Inr ([CHR 0x0A], []))]"

definition inspectShell :: "unit shell" where
  "inspectShell = scriptedShell
     [(inspectCommand ''sha256:aaa'', Inl ''No such image''),
      (inspectCommand ''sha256:bbb'', Inr (''web:2 web:latest '' @ [CHR 0x0A], [])),
      (imagesCommand, Inr (''a:1'' @ [CHR 0x0A] @ ''b:1'' @ [CHR 0x0A] @ ''c:1'' @ [CHR 0x0A] @ ''d:1''
                           @ [CHR 0x0A] @ ''e:1'' @ [CHR 0x0A] @ ''f:1'' @ [CHR 0x0A], []))]"

text \<open>A shell that rejects the load of the uploaded archive.\<close>

definition rejectedLoadShell :: "unit shell" where
  "rejectedLoadShell = scriptedShell
     [(''docker load -i '' @ dquote ''/uploads/9-app.tar'', Inl ''invalid tar header'')]"

text \<open>
  A shell that keeps what a registry keeps: the local tags that \<^verbatim>\<open>docker tag\<close> has set, and
  for every push the target with the image that the pushed tag then named, the latest push
  first. A push of a tag that was never set is rejected. Two references that differ only
  before the last slash are pushed to a registry that starts empty.
\<close>

definition registryShell :: "string list \<Rightarrow> string list \<Rightarrow> ((string \<times> string) list \<times> (string \<times> string) list) shell" where
  "registryShell sources targets cmd fs st =
     (case find (\<lambda>(s, t). cmd = tagCommand s t) (List.product sources targets) of
        Some (s, t) \<Rightarrow> (Inr ([], []), ((t, s) # fst st, snd st))
      | None \<Rightarrow>
          (case find (\<lambda>t. cmd = pushCommand t) targets of
             Some t \<Rightarrow>
               (case map_of (fst st) t of
                  Some s \<Rightarrow> (Inr ([], []), (fst st, (t, s) # snd st))
                | None \<Rightarrow> (Inl ''tag does not exist'', st))
           | None \<Rightarrow> (Inr ([], []), st)))"

definition twoTeamsShell :: "((string \<times> string) list \<times> (string \<times> string) list) shell" where
  "twoTeamsShell = registryShell [''teamA/app:1.0'', ''teamB/app:1.0'']
                     [''registry:5001/app:1.0'', ''registry:5001/app:latest'']"

definition twoTeamsWorld :: "((string \<times> string) list \<times> (string \<times> string) list) world" where
  "twoTeamsWorld = \<lparr>files = Map.empty, tools = ([], []), trace = []\<rparr>"

section \<open>Unfolding\<close>

text \<open>The definitions that a run on a concrete world unfolds, by component.\<close>

lemmas world_defs = execPromise_def stat_def pathExists_def unlink_def logged_def since_def squote_def
lemmas validator_defs = validateDockerTarFile_def listTar_def invalid_def valid_def dquote_def
lemmas loader_defs = loadDockerImagesFromTar_def loadTry_def recoverImages_def recentImages_def
  loadedImageNames_def loadStderrWarnings_def imagesCommand_def inspectCommand_def inspectImageId_def
  trim_def isWhiteSpace_def isLineTerminator_def
lemmas name_defs = imageBaseName_def repoName_def originalTag_def originalLocalImageName_def
  latestLocalImageName_def tagCommand_def pushCommand_def rmiCommand_def probeCommand_def
  localRegistryUrl_def pushStderrWarnings_def
lemmas pusher_defs = pushImage_def pushFailed_def pushSucceeded_def
lemmas pusher_run_defs = pushImagesToLocalRegistry_def probeRegistry_def
lemmas handler_defs = postUploadDockerTar_def handleUpload_def processDockerTarFile_def
  processTry_def pushStage_def
lemmas statement_defs = imageIdOf_def undeterminedWarning_def approximationWarning_def
lemmas segment_defs = lastSegment_def segmentRepository_def segmentTag_def
lemmas double_defs = scriptedShell_def disk_def emptyWorld_def
lemmas two_defs = twoImagesShell_def twoImagesUpload_def twoImagesWorld_def
lemmas locked_defs = appUpload_def lockedWorld_def plainWorld_def
lemmas untagged_defs = untaggedShell_def inspectShell_def locked_defs
lemmas run_defs = pusher_run_defs pusher_defs name_defs loader_defs validator_defs world_defs double_defs
lemmas registry_defs = registryShell_def twoTeamsShell_def twoTeamsWorld_def

section \<open>The validator\<close>

text \<open>
  C7. The validator never throws. For a regular file of size 0 it answers
  \<^verbatim>\<open>Tar file is empty\<close>, whatever the name of the file, and for one of more than 5 GiB
  \<^verbatim>\<open>Tar file is too large (max 5GB)\<close>; in both cases the only call made is the
  \<^verbatim>\<open>stat\<close>, so the size checks come before the listing. Whenever a command of the
  run fails (the validator runs no command but the two listings), the answer is
  \<^verbatim>\<open>File is not a valid tar archive\<close>.
\<close>

theorem validate_checks:
  "(\<exists>v w'. validateDockerTarFile sh p w = (Inr v, w')) \<and>
   (files w p = Some n \<and> isFile n \<and> size_bytes n = 0 \<longrightarrow>
      validateDockerTarFile sh p w = (Inr (invalid ''Tar file is empty''), logged (Stat p) True w)) \<and>
   (files w p = Some n \<and> isFile n \<and> size_bytes n > 5 * 1024 * 1024 * 1024 \<longrightarrow>
      validateDockerTarFile sh p w = (Inr (invalid ''Tar file is too large (max 5GB)''), logged (Stat p) True w)) \<and>
   (validateDockerTarFile sh p w = (r, w') \<and> (Exec c, False) \<in> set (since w w') \<longrightarrow>
      r = Inr (invalid ''File is not a valid tar archive''))"
proof (intro conjI impI)
  show "\<exists>v w'. validateDockerTarFile sh p w = (Inr v, w')"
    by (auto simp: validateDockerTarFile_def split: option.splits prod.splits sum.splits)
next
  assume "files w p = Some n \<and> isFile n \<and> size_bytes n = 0"
  then show "validateDockerTarFile sh p w = (Inr (invalid ''Tar file is empty''), logged (Stat p) True w)"
    by (simp add: validateDockerTarFile_def stat_def)
next
  assume "files w p = Some n \<and> isFile n \<and> size_bytes n > 5 * 1024 * 1024 * 1024"
  then show "validateDockerTarFile sh p w = (Inr (invalid ''Tar file is too large (max 5GB)''), logged (Stat p) True w)"
    by (simp add: validateDockerTarFile_def stat_def)
next
  assume "validateDockerTarFile sh p w = (r, w') \<and> (Exec c, False) \<in> set (since w w')"
  then show "r = Inr (invalid ''File is not a valid tar archive'')"
    by (auto simp: validateDockerTarFile_def listTar_def world_defs
             split: option.splits prod.splits sum.splits if_splits)
qed

theorem validate_checks_witness:
  "fst (validateDockerTarFile (scriptedShell []) ''/uploads/17-notes.txt''
         (disk ''/uploads/17-notes.txt'' \<lparr>isFile = True, size_bytes = 0, undeletable = False\<rparr>))
     = Inr \<lparr>isValid = False, error = Some ''Tar file is empty''\<rparr>
   \<and> fst (validateDockerTarFile (scriptedShell []) ''/uploads/17-big.tar''
         (disk ''/uploads/17-big.tar'' \<lparr>isFile = True, size_bytes = 5368709121, undeletable = False\<rparr>))
     = Inr \<lparr>isValid = False, error = Some ''Tar file is too large (max 5GB)''\<rparr>
   \<and> fst (validateDockerTarFile
         (scriptedShell [(''tar -tf '' @ dquote ''/uploads/17-bad.tar'' @ '' | head -10'', Inl ''Command failed'')])
         ''/uploads/17-bad.tar''
         (disk ''/uploads/17-bad.tar'' \<lparr>isFile = True, size_bytes = 2048, undeletable = False\<rparr>))
     = Inr \<lparr>isValid = False, error = Some ''File is not a valid tar archive''\<rparr>"
  using
    validate_checks [of "scriptedShell []" "''/uploads/17-notes.txt''"
      "disk ''/uploads/17-notes.txt'' \<lparr>isFile = True, size_bytes = 0, undeletable = False\<rparr>"
      "\<lparr>isFile = True, size_bytes = 0, undeletable = False\<rparr>"]
    validate_checks [of "scriptedShell []" "''/uploads/17-big.tar''"
      "disk ''/uploads/17-big.tar'' \<lparr>isFile = True, size_bytes = 5368709121, undeletable = False\<rparr>"
      "\<lparr>isFile = True, size_bytes = 5368709121, undeletable = False\<rparr>"]
    validate_checks [of
      "scriptedShell [(''tar -tf '' @ dquote ''/uploads/17-bad.tar'' @ '' | head -10'', Inl ''Command failed'')]"
      "''/uploads/17-bad.tar''"
      "disk ''/uploads/17-bad.tar'' \<lparr>isFile = True, size_bytes = 2048, undeletable = False\<rparr>"
      "\<lparr>isFile = True, size_bytes = 2048, undeletable = False\<rparr>"
      "fst (validateDockerTarFile
         (scriptedShell [(''tar -tf '' @ dquote ''/uploads/17-bad.tar'' @ '' | head -10'', Inl ''Command failed'')])
         ''/uploads/17-bad.tar''
         (disk ''/uploads/17-bad.tar'' \<lparr>isFile = True, size_bytes = 2048, undeletable = False\<rparr>))"
      "snd (validateDockerTarFile
         (scriptedShell [(''tar -tf '' @ dquote ''/uploads/17-bad.tar'' @ '' | head -10'', Inl ''Command failed'')])
         ''/uploads/17-bad.tar''
         (disk ''/uploads/17-bad.tar'' \<lparr>isFile = True, size_bytes = 2048, undeletable = False\<rparr>))"
      "''tar -tf '' @ dquote ''/uploads/17-bad.tar'' @ '' | head -10''"]
  by (simp add: validator_defs world_defs double_defs)

text \<open>
  C8. Whenever the run of the validator has listed the archive in full and that command
  succeeded, the answer is \<^verbatim>\<open>isValid = true\<close>, whatever the listing holds: a listing
  without \<^verbatim>\<open>manifest.json\<close> and without \<^verbatim>\<open>.json\<close> does not fail the validation.
\<close>

theorem listing_ok_valid:
  "validateDockerTarFile sh p w = (r, w') \<Longrightarrow>
   (Exec (''tar -tf '' @ dquote p), True) \<in> set (since w w') \<Longrightarrow> r = Inr valid"
  by (auto simp: validateDockerTarFile_def listTar_def world_defs
           split: option.splits prod.splits sum.splits if_splits)

theorem listing_ok_valid_witness:
  "\<not> includesStr ''layer.tar'' ''manifest.json'' \<and> \<not> includesStr ''layer.tar'' ''.json''
   \<and> fst (validateDockerTarFile
         (scriptedShell [(''tar -tf '' @ dquote ''/uploads/17-odd.tar'', Inr (''layer.tar'', []))])
         ''/uploads/17-odd.tar''
         (disk ''/uploads/17-odd.tar'' \<lparr>isFile = True, size_bytes = 2048, undeletable = False\<rparr>))
     = Inr \<lparr>isValid = True, error = None\<rparr>"
  using listing_ok_valid [of
      "scriptedShell [(''tar -tf '' @ dquote ''/uploads/17-odd.tar'', Inr (''layer.tar'', []))]"
      "''/uploads/17-odd.tar''"
      "disk ''/uploads/17-odd.tar'' \<lparr>isFile = True, size_bytes = 2048, undeletable = False\<rparr>"
      "fst (validateDockerTarFile
         (scriptedShell [(''tar -tf '' @ dquote ''/uploads/17-odd.tar'', Inr (''layer.tar'', []))])
         ''/uploads/17-odd.tar''
         (disk ''/uploads/17-odd.tar'' \<lparr>isFile = True, size_bytes = 2048, undeletable = False\<rparr>))"
      "snd (validateDockerTarFile
         (scriptedShell [(''tar -tf '' @ dquote ''/uploads/17-odd.tar'', Inr (''layer.tar'', []))])
         ''/uploads/17-odd.tar''
         (disk ''/uploads/17-odd.tar'' \<lparr>isFile = True, size_bytes = 2048, undeletable = False\<rparr>))"]
  by (simp add: validator_defs world_defs double_defs)

section \<open>The upload route without a file\<close>








section \<open>The pusher\<close>

lemma since_append: "trace w' = trace w @ es \<Longrightarrow> since w w' = es"
  by (simp add: since_def)

lemma execPromise_trace:
  "execPromise sh c w = (r, w') \<Longrightarrow> trace w' = trace w @ [(Exec c, \<not> isl r)] \<and> files w' = files w"
  by (auto simp: execPromise_def logged_def split: prod.splits sum.splits)

text \<open>
  The ways through the loop body: one of the first four commands is rejected, after
  \<open>k\<close> that succeeded, and the \<^verbatim>\<open>catch\<close> block runs; or all four succeed and the
  two removals follow, whatever they answer.
\<close>

lemma pushImage_cases:
  assumes "pushImage sh url n r w = (r', w')"
  obtains (rejected) k msg ws where "k < 4"
      "trace w' = trace w @ zip (take (Suc k) (pushSteps url n)) (replicate k True @ [False])"
      "r' = pushFailed url n msg (r\<lparr>warnings := warnings r @ ws\<rparr>)"
      "firstRejection sh (pushStepCommands url n) w = Some msg"
  | (pushed) ok5 ok6 ws where
      "trace w' = trace w @ zip (pushSteps url n) [True, True, True, True, ok5, ok6]"
      "r' = pushSucceeded url n (r\<lparr>warnings := warnings r @ ws\<rparr>)"
      "firstRejection sh (pushStepCommands url n) w = None"
proof -
  let ?o = "originalLocalImageName url n" and ?l = "latestLocalImageName url n"
  obtain a1 w1 where 1: "execPromise sh (tagCommand n ?o) w = (a1, w1)"
    by (cases "execPromise sh (tagCommand n ?o) w")
  obtain a2 w2 where 2: "execPromise sh (pushCommand ?o) w1 = (a2, w2)"
    by (cases "execPromise sh (pushCommand ?o) w1")
  obtain a3 w3 where 3: "execPromise sh (tagCommand n ?l) w2 = (a3, w3)"
    by (cases "execPromise sh (tagCommand n ?l) w2")
  obtain a4 w4 where 4: "execPromise sh (pushCommand ?l) w3 = (a4, w4)"
    by (cases "execPromise sh (pushCommand ?l) w3")
  obtain a5 w5 where 5: "execPromise sh (rmiCommand ?o) w4 = (a5, w5)"
    by (cases "execPromise sh (rmiCommand ?o) w4")
  obtain a6 w6 where 6: "execPromise sh (rmiCommand ?l) w5 = (a6, w6)"
    by (cases "execPromise sh (rmiCommand ?l) w5")
  note t = execPromise_trace [OF 1] execPromise_trace [OF 2] execPromise_trace [OF 3]
           execPromise_trace [OF 4] execPromise_trace [OF 5] execPromise_trace [OF 6]
  show thesis
  proof (cases a1)
    case (Inl msg)
    with 1 have f: "firstRejection sh (pushStepCommands url n) w = Some msg"
      by (simp add: pushStepCommands_def)
    from Inl assms 1 t have "r' = pushFailed url n msg (r\<lparr>warnings := warnings r @ []\<rparr>)"
        "trace w' = trace w @ zip (take (Suc 0) (pushSteps url n)) (replicate 0 True @ [False])"
      by (auto simp: pushImage_def pushSteps_def)
    then show thesis using f rejected [of 0 msg "[]"] by simp
  next
    case i1: (Inr b1)
    show thesis
    proof (cases a2)
      case (Inl msg)
      with 1 2 i1 have f: "firstRejection sh (pushStepCommands url n) w = Some msg"
        by (simp add: pushStepCommands_def)
      from Inl assms 1 2 t i1 have "r' = pushFailed url n msg (r\<lparr>warnings := warnings r @ []\<rparr>)"
          "trace w' = trace w @ zip (take (Suc 1) (pushSteps url n)) (replicate 1 True @ [False])"
        by (auto simp: pushImage_def pushSteps_def)
      then show thesis using f rejected [of 1 msg "[]"] by simp
    next
      case i2: (Inr b2)
      let ?ws = "pushStderrWarnings ?o (snd b2)"
      show thesis
      proof (cases a3)
        case (Inl msg)
        with 1 2 3 i1 i2 have f: "firstRejection sh (pushStepCommands url n) w = Some msg"
          by (simp add: pushStepCommands_def)
        from Inl assms 1 2 3 t i1 i2
        have "r' = pushFailed url n msg (r\<lparr>warnings := warnings r @ ?ws\<rparr>)"
            "trace w' = trace w @ zip (take (Suc 2) (pushSteps url n)) (replicate 2 True @ [False])"
          by (auto simp: pushImage_def pushSteps_def eval_nat_numeral split: prod.splits)
        then show thesis using f rejected [of 2 msg ?ws] by simp
      next
        case i3: (Inr b3)
        show thesis
        proof (cases a4)
          case (Inl msg)
          with 1 2 3 4 i1 i2 i3 have f: "firstRejection sh (pushStepCommands url n) w = Some msg"
            by (simp add: pushStepCommands_def)
          from Inl assms 1 2 3 4 t i1 i2 i3
          have "r' = pushFailed url n msg (r\<lparr>warnings := warnings r @ ?ws\<rparr>)"
              "trace w' = trace w @ zip (take (Suc 3) (pushSteps url n)) (replicate 3 True @ [False])"
            by (auto simp: pushImage_def pushSteps_def eval_nat_numeral split: prod.splits)
          then show thesis using f rejected [of 3 msg ?ws] by simp
        next
          case i4: (Inr b4)
          with 1 2 3 4 i1 i2 i3 have f: "firstRejection sh (pushStepCommands url n) w = None"
            by (simp add: pushStepCommands_def)
          from i4 assms 1 2 3 4 5 6 t i1 i2 i3
          have "r' = pushSucceeded url n
                       (r\<lparr>warnings := warnings r @ (?ws @ pushStderrWarnings ?l (snd b4))\<rparr>)"
              "trace w' = trace w @ zip (pushSteps url n) [True, True, True, True, \<not> isl a5, \<not> isl a6]"
            by (auto simp: pushImage_def pushSteps_def split: prod.splits)
          then show thesis
            using f pushed [of "\<not> isl a5" "\<not> isl a6" "?ws @ pushStderrWarnings ?l (snd b4)"] by simp
        qed
      qed
    qed
  qed
qed

lemma probeRegistry_run:
  "probeRegistry sh url r w = (r', w') \<Longrightarrow>
   pushedImages r' = pushedImages r \<and> errors r' = errors r
   \<and> (\<exists>ok. trace w' = trace w @ [(Exec (probeCommand url), ok)])"
  by (auto simp: probeRegistry_def dest!: execPromise_trace split: prod.splits sum.splits if_splits)

text \<open>The log of the loop is one run after the other, one for each image.\<close>

lemma pushImage_run:
  assumes "pushImage sh url n r w = (r', w')"
  obtains es m where "trace w' = trace w @ es" "legalRun url n es m"
    "pushedImages r' = pushedImages r @ outcomesOf url n m"
    "errors r' = errors r @ errorsOf n m"
    "m = firstRejection sh (pushStepCommands url n) w"
  using assms
proof (cases rule: pushImage_cases)
  case (rejected k msg ws)
  show ?thesis
  proof (rule that [of "zip (take (Suc k) (pushSteps url n)) (replicate k True @ [False])" "Some msg"])
    show "legalRun url n (zip (take (Suc k) (pushSteps url n)) (replicate k True @ [False])) (Some msg)"
      using rejected(1) by (auto simp: legalRun_def)
  qed (simp_all add: rejected pushFailed_def outcomesOf_def errorsOf_def
         originalLocalImageName_def latestLocalImageName_def)
next
  case (pushed ok5 ok6 ws)
  show ?thesis
  proof (rule that [of "zip (pushSteps url n) [True, True, True, True, ok5, ok6]" None])
    show "legalRun url n (zip (pushSteps url n) [True, True, True, True, ok5, ok6]) None"
      by (auto simp: legalRun_def)
  qed (simp_all add: pushed pushSucceeded_def outcomesOf_def errorsOf_def)
qed

lemma pushEach_runs:
  "pushEach sh url ns r w = (r', w') \<Longrightarrow>
   \<exists>runs. length runs = length ns
      \<and> trace w' = trace w @ concat (map fst runs)
      \<and> (\<forall>i<length ns. legalRun url (ns ! i) (fst (runs ! i)) (snd (runs ! i)))
      \<and> pushedImages r' = pushedImages r @ concat (map (\<lambda>(n, run). outcomesOf url n (snd run)) (zip ns runs))
      \<and> errors r' = errors r @ concat (map (\<lambda>(n, run). errorsOf n (snd run)) (zip ns runs))"
proof (induction ns arbitrary: r w)
  case Nil
  then show ?case by simp
next
  case (Cons n ns)
  obtain r1 w1 where 1: "pushImage sh url n r w = (r1, w1)" by (cases "pushImage sh url n r w")
  with Cons.prems have 2: "pushEach sh url ns r1 w1 = (r', w')" by simp
  from 1 obtain es m where h: "trace w1 = trace w @ es" "legalRun url n es m"
      "pushedImages r1 = pushedImages r @ outcomesOf url n m"
      "errors r1 = errors r @ errorsOf n m"
    by (rule pushImage_run)
  from Cons.IH [OF 2] obtain runs where t: "length runs = length ns"
      "trace w' = trace w1 @ concat (map fst runs)"
      "\<forall>i<length ns. legalRun url (ns ! i) (fst (runs ! i)) (snd (runs ! i))"
      "pushedImages r' = pushedImages r1 @ concat (map (\<lambda>(n, run). outcomesOf url n (snd run)) (zip ns runs))"
      "errors r' = errors r1 @ concat (map (\<lambda>(n, run). errorsOf n (snd run)) (zip ns runs))"
    by blast
  let ?runs = "(es, m) # runs"
  have "\<forall>i<length (n # ns). legalRun url ((n # ns) ! i) (fst (?runs ! i)) (snd (?runs ! i))"
  proof (intro allI impI)
    fix i assume "i < length (n # ns)"
    then show "legalRun url ((n # ns) ! i) (fst (?runs ! i)) (snd (?runs ! i))"
      using h(2) t(3) by (cases i) auto
  qed
  moreover have "length ?runs = length (n # ns)" using t(1) by simp
  moreover have "trace w' = trace w @ concat (map fst ?runs)" using h(1) t(2) by simp
  moreover have "pushedImages r' = pushedImages r @
      concat (map (\<lambda>(n, run). outcomesOf url n (snd run)) (zip (n # ns) ?runs))"
    using h(3) t(4) by simp
  moreover have "errors r' = errors r @
      concat (map (\<lambda>(n, run). errorsOf n (snd run)) (zip (n # ns) ?runs))"
    using h(4) t(5) by simp
  ultimately show ?case by blast
qed

lemma pusher_runs:
  "\<exists>pr w' ok0 runs. pushImagesToLocalRegistry sh env names w = (Inr pr, w')
     \<and> length runs = length names
     \<and> since w w' = (Exec (probeCommand (localRegistryUrl env)), ok0) # concat (map fst runs)
     \<and> (\<forall>i<length names. legalRun (localRegistryUrl env) (names ! i) (fst (runs ! i)) (snd (runs ! i)))
     \<and> pushedImages pr = concat (map (\<lambda>(n, run). outcomesOf (localRegistryUrl env) n (snd run)) (zip names runs))
     \<and> errors pr = concat (map (\<lambda>(n, run). errorsOf n (snd run)) (zip names runs))"
proof -
  let ?url = "localRegistryUrl env"
  obtain r0 w1 where p: "probeRegistry sh ?url \<lparr>errors = [], warnings = [], pushedImages = []\<rparr> w = (r0, w1)"
    by (cases "probeRegistry sh ?url \<lparr>errors = [], warnings = [], pushedImages = []\<rparr> w")
  obtain r w2 where e: "pushEach sh ?url names r0 w1 = (r, w2)"
    by (cases "pushEach sh ?url names r0 w1")
  have run: "pushImagesToLocalRegistry sh env names w = (Inr r, w2)"
    by (simp add: pushImagesToLocalRegistry_def p e)
  from probeRegistry_run [OF p] obtain ok0 where pr: "pushedImages r0 = []" "errors r0 = []"
      "trace w1 = trace w @ [(Exec (probeCommand ?url), ok0)]" by auto
  from pushEach_runs [OF e] obtain runs where t: "length runs = length names"
      "trace w2 = trace w1 @ concat (map fst runs)"
      "\<forall>i<length names. legalRun ?url (names ! i) (fst (runs ! i)) (snd (runs ! i))"
      "pushedImages r = pushedImages r0 @ concat (map (\<lambda>(n, run). outcomesOf ?url n (snd run)) (zip names runs))"
      "errors r = errors r0 @ concat (map (\<lambda>(n, run). errorsOf n (snd run)) (zip names runs))"
    by blast
  have "since w w2 = (Exec (probeCommand ?url), ok0) # concat (map fst runs)"
    using pr(3) t(2) by (intro since_append) simp
  with run t pr show ?thesis by auto
qed

subsection \<open>Two outcomes for every image\<close>

lemma pushImage_shapes:
  assumes "pushImage sh url n r w = (r', w')"
  shows "map shape (pushedImages r') = map shape (pushedImages r) @ expectedShapes url n"
  using assms
  by (cases rule: pushImage_cases)
     (simp_all add: pushFailed_def pushSucceeded_def shape_def expectedShapes_def
        originalLocalImageName_def latestLocalImageName_def)

lemma pushEach_shapes:
  "pushEach sh url ns r w = (r', w') \<Longrightarrow>
   map shape (pushedImages r') = map shape (pushedImages r) @ concat (map (expectedShapes url) ns)"
proof (induction ns arbitrary: r w)
  case Nil
  then show ?case by simp
next
  case (Cons n ns)
  obtain r1 w1 where 1: "pushImage sh url n r w = (r1, w1)" by (cases "pushImage sh url n r w")
  with Cons.prems have 2: "pushEach sh url ns r1 w1 = (r', w')" by simp
  show ?case using Cons.IH [OF 2] pushImage_shapes [OF 1] by simp
qed


subsection \<open>The two outcomes of an image are recorded together\<close>

text \<open>
  C1, as the code has it. The loop body appends two outcomes, of type \<^verbatim>\<open>original\<close>
  and \<^verbatim>\<open>latest\<close>, with the same status and the same error. The commands run are an
  initial segment of: tag and push of the versioned target, tag and push of the latest
  target, the two removals. Both outcomes are \<^verbatim>\<open>success\<close> exactly when the first four
  commands all succeeded, and both are \<^verbatim>\<open>failed\<close> exactly when the run ends with the
  first rejected one among these four. So the latest target is pushed only after the
  versioned one was pushed, and a rejected push of the latest target fails both outcomes.
  The error of both outcomes is the message with which the shell rejected that first
  command (none when all four succeed), and \<^verbatim>\<open>errors\<close> gains
  \<^verbatim>\<open>Failed to push <image>: <message>\<close> with that message, and nothing otherwise.
\<close>

theorem outcomes_recorded_together:
  assumes "pushImage sh url n r w = (r', w')"
  shows "\<exists>p q. pushedImages r' = pushedImages r @ [p, q]
      \<and> type p = original \<and> type q = latest
      \<and> status p = status q \<and> pushError p = pushError q
      \<and> map fst (since w w') = take (length (since w w')) (pushSteps url n)
      \<and> (status q = success \<longleftrightarrow> map snd (take 4 (since w w')) = [True, True, True, True])
      \<and> (status q = failed \<longleftrightarrow> (\<exists>k<4. map snd (since w w') = replicate k True @ [False]))
      \<and> pushError q = firstRejection sh (pushStepCommands url n) w
      \<and> (status q = failed \<longleftrightarrow> firstRejection sh (pushStepCommands url n) w \<noteq> None)
      \<and> errors r' = errors r @ errorsOf n (firstRejection sh (pushStepCommands url n) w)"
  using assms
proof (cases rule: pushImage_cases)
  case (rejected k msg ws)
  have k: "k = 0 \<or> k = 1 \<or> k = 2 \<or> k = 3" using rejected(1) by arith
  have s: "since w w' = zip (take (Suc k) (pushSteps url n)) (replicate k True @ [False])"
    using rejected(2) by (rule since_append)
  have m: "map snd (since w w') = replicate k True @ [False]"
    unfolding s using k by (auto simp: pushSteps_def eval_nat_numeral)
  have "map fst (since w w') = take (length (since w w')) (pushSteps url n)"
    unfolding s using k by (auto simp: pushSteps_def eval_nat_numeral)
  moreover have "map snd (take 4 (since w w')) \<noteq> [True, True, True, True]"
    unfolding s using k by (auto simp: pushSteps_def eval_nat_numeral)
  moreover have "\<exists>k<4. map snd (since w w') = replicate k True @ [False]"
    using m rejected(1) by blast
  ultimately show ?thesis
    unfolding rejected(3) rejected(4) by (simp add: pushFailed_def errorsOf_def)
next
  case (pushed ok5 ok6 ws)
  have s: "since w w' = zip (pushSteps url n) [True, True, True, True, ok5, ok6]"
    using pushed(1) by (rule since_append)
  have "map fst (since w w') = take (length (since w w')) (pushSteps url n)"
    unfolding s by (simp add: pushSteps_def)
  moreover have "map snd (take 4 (since w w')) = [True, True, True, True]"
    unfolding s by (simp add: pushSteps_def)
  moreover have "\<not> (\<exists>k<4. map snd (since w w') = replicate k True @ [False])"
  proof
    assume "\<exists>k<4. map snd (since w w') = replicate k True @ [False]"
    then obtain k where "k < 4" "map snd (since w w') = replicate k True @ [False]" by blast
    then have "length (map snd (since w w')) < 6" by simp
    then show False unfolding s by (simp add: pushSteps_def)
  qed
  ultimately show ?thesis
    unfolding pushed(2) pushed(3) by (simp add: pushSucceeded_def errorsOf_def)
qed

theorem outcomes_recorded_together_witness:
  "map status (pushedImages (fst (pushImage
       (scriptedShell [(pushCommand ''registry:5001/myapp:latest'', Inl ''denied'')])
       ''registry:5001'' ''myapp:1.2.0'' \<lparr>errors = [], warnings = [], pushedImages = []\<rparr> emptyWorld)))
     = [failed, failed]
   \<and> map snd (since emptyWorld (snd (pushImage
       (scriptedShell [(pushCommand ''registry:5001/myapp:latest'', Inl ''denied'')])
       ''registry:5001'' ''myapp:1.2.0'' \<lparr>errors = [], warnings = [], pushedImages = []\<rparr> emptyWorld)))
     = [True, True, True, False]
   \<and> map pushError (pushedImages (fst (pushImage
       (scriptedShell [(pushCommand ''registry:5001/myapp:latest'', Inl ''denied'')])
       ''registry:5001'' ''myapp:1.2.0'' \<lparr>errors = [], warnings = [], pushedImages = []\<rparr> emptyWorld)))
     = [Some ''denied'', Some ''denied'']"
  using outcomes_recorded_together [of
      "scriptedShell [(pushCommand ''registry:5001/myapp:latest'', Inl ''denied'')]"
      "''registry:5001''" "''myapp:1.2.0''" "\<lparr>errors = [], warnings = [], pushedImages = []\<rparr>" emptyWorld
      "fst (pushImage
       (scriptedShell [(pushCommand ''registry:5001/myapp:latest'', Inl ''denied'')])
       ''registry:5001'' ''myapp:1.2.0'' \<lparr>errors = [], warnings = [], pushedImages = []\<rparr> emptyWorld)"
      "snd (pushImage
       (scriptedShell [(pushCommand ''registry:5001/myapp:latest'', Inl ''denied'')])
       ''registry:5001'' ''myapp:1.2.0'' \<lparr>errors = [], warnings = [], pushedImages = []\<rparr> emptyWorld)"]
  by (simp add: pusher_defs name_defs world_defs double_defs dquote_def)

text \<open>
  The claim as the specification words it fails: with the default registry, the image
  \<^verbatim>\<open>myapp:1.2.0\<close> and a registry that rejects only the push of
  \<^verbatim>\<open>myapp:latest\<close>, the versioned push succeeds (third call of the log), the latest
  push fails, and both outcomes are recorded as \<^verbatim>\<open>failed\<close>.
\<close>

theorem latest_failure_counterexample:
  "fst (pushImagesToLocalRegistry
           (scriptedShell [(pushCommand ''100.103.254.213:5001/myapp:latest'', Inl ''denied'')])
           None [''myapp:1.2.0''] emptyWorld)
     = Inr \<lparr>errors = [''Failed to push myapp:1.2.0: denied''], warnings = [],
            pushedImages =
              [\<lparr>originalName = ''myapp:1.2.0'', localName = ''100.103.254.213:5001/myapp:1.2.0'',
                registryUrl = ''100.103.254.213:5001'', tag = ''1.2.0'',
                status = failed, type = original, pushError = Some ''denied''\<rparr>,
               \<lparr>originalName = ''myapp:1.2.0'', localName = ''100.103.254.213:5001/myapp:latest'',
                registryUrl = ''100.103.254.213:5001'', tag = ''latest'',
                status = failed, type = latest, pushError = Some ''denied''\<rparr>]\<rparr>
   \<and> trace (snd (pushImagesToLocalRegistry
           (scriptedShell [(pushCommand ''100.103.254.213:5001/myapp:latest'', Inl ''denied'')])
           None [''myapp:1.2.0''] emptyWorld))
     = [(Exec (probeCommand ''100.103.254.213:5001''), True),
        (Exec (tagCommand ''myapp:1.2.0'' ''100.103.254.213:5001/myapp:1.2.0''), True),
        (Exec (pushCommand ''100.103.254.213:5001/myapp:1.2.0''), True),
        (Exec (tagCommand ''myapp:1.2.0'' ''100.103.254.213:5001/myapp:latest''), True),
        (Exec (pushCommand ''100.103.254.213:5001/myapp:latest''), False)]"
  by (simp add: pushImagesToLocalRegistry_def probeRegistry_def pusher_defs name_defs
        world_defs double_defs dquote_def)

subsection \<open>A failed image does not stop the others\<close>

lemma pushImage_recorded:
  assumes "pushImage sh url n r w = (r', w')" "failuresRecorded r"
  shows "failuresRecorded r'"
  using assms(1)
proof (cases rule: pushImage_cases)
  case (rejected k msg ws)
  then show ?thesis using assms(2) by (auto simp: failuresRecorded_def pushFailed_def)
next
  case (pushed ok5 ok6 ws)
  then show ?thesis using assms(2) by (auto simp: failuresRecorded_def pushSucceeded_def)
qed

lemma pushImage_started:
  assumes "pushImage sh url n r w = (r', w')"
  shows "\<exists>ok es. trace w' = trace w @ (Exec (tagCommand n (originalLocalImageName url n)), ok) # es"
  using assms
proof (cases rule: pushImage_cases)
  case (rejected k msg ws)
  have "k = 0 \<or> k = 1 \<or> k = 2 \<or> k = 3" using rejected(1) by arith
  then show ?thesis unfolding rejected(2) by (auto simp: pushSteps_def eval_nat_numeral)
next
  case (pushed ok5 ok6 ws)
  then show ?thesis by (auto simp: pushSteps_def)
qed

lemma pushImage_names:
  assumes "pushImage sh url n r w = (r', w')"
  shows "map originalName (pushedImages r') = map originalName (pushedImages r) @ [n, n]"
  using assms by (cases rule: pushImage_cases) (simp_all add: pushFailed_def pushSucceeded_def)

lemma pushImage_failure_recorded:
  assumes "pushImage sh url n r w = (r', w')" "(c, False) \<in> set (take 4 (since w w'))"
  shows "\<exists>msg. errors r' = errors r @ [''Failed to push '' @ n @ '': '' @ msg]
           \<and> map status (drop (length (pushedImages r)) (pushedImages r')) = [failed, failed]"
  using assms(1)
proof (cases rule: pushImage_cases)
  case (rejected k msg ws)
  then show ?thesis by (simp add: pushFailed_def)
next
  case (pushed ok5 ok6 ws)
  have "since w w' = zip (pushSteps url n) [True, True, True, True, ok5, ok6]"
    using pushed(1) by (rule since_append)
  with assms(2) show ?thesis by (auto simp: pushSteps_def)
qed

lemma pushEach_all:
  "pushEach sh url ns r w = (r', w') \<Longrightarrow> failuresRecorded r \<Longrightarrow>
   failuresRecorded r'
   \<and> map originalName (pushedImages r') = map originalName (pushedImages r) @ concat (map (\<lambda>n. [n, n]) ns)
   \<and> (\<exists>es. trace w' = trace w @ es
          \<and> (\<forall>n \<in> set ns. \<exists>ok. (Exec (tagCommand n (originalLocalImageName url n)), ok) \<in> set es))"
proof (induction ns arbitrary: r w)
  case Nil
  then show ?case by simp
next
  case (Cons n ns)
  obtain r1 w1 where 1: "pushImage sh url n r w = (r1, w1)" by (cases "pushImage sh url n r w")
  with Cons.prems have 2: "pushEach sh url ns r1 w1 = (r', w')" by simp
  have rec1: "failuresRecorded r1" using pushImage_recorded [OF 1 Cons.prems(2)] .
  note ih = Cons.IH [OF 2 rec1]
  from pushImage_started [OF 1] obtain ok es1
    where t1: "trace w1 = trace w @ (Exec (tagCommand n (originalLocalImageName url n)), ok) # es1" by blast
  from ih obtain es where t2: "trace w' = trace w1 @ es"
    and all: "\<forall>m \<in> set ns. \<exists>ok. (Exec (tagCommand m (originalLocalImageName url m)), ok) \<in> set es" by blast
  let ?es = "(Exec (tagCommand n (originalLocalImageName url n)), ok) # es1 @ es"
  have "trace w' = trace w @ ?es" using t1 t2 by simp
  moreover have "\<forall>m \<in> set (n # ns). \<exists>ok. (Exec (tagCommand m (originalLocalImageName url m)), ok) \<in> set ?es"
    using all by auto
  ultimately have "\<exists>es. trace w' = trace w @ es
      \<and> (\<forall>m \<in> set (n # ns). \<exists>ok. (Exec (tagCommand m (originalLocalImageName url m)), ok) \<in> set es)"
    by blast
  then show ?case using ih pushImage_names [OF 1] by simp
qed

lemma pusher_all:
  "\<exists>pr w'. pushImagesToLocalRegistry sh env names w = (Inr pr, w')
     \<and> (\<forall>n \<in> set names. \<exists>ok.
           (Exec (tagCommand n (originalLocalImageName (localRegistryUrl env) n)), ok) \<in> set (since w w'))
     \<and> map originalName (pushedImages pr) = concat (map (\<lambda>n. [n, n]) names)
     \<and> failuresRecorded pr"
proof -
  let ?url = "localRegistryUrl env"
  obtain r0 w1 where p: "probeRegistry sh ?url \<lparr>errors = [], warnings = [], pushedImages = []\<rparr> w = (r0, w1)"
    by (cases "probeRegistry sh ?url \<lparr>errors = [], warnings = [], pushedImages = []\<rparr> w")
  obtain r w2 where e: "pushEach sh ?url names r0 w1 = (r, w2)"
    by (cases "pushEach sh ?url names r0 w1")
  have run: "pushImagesToLocalRegistry sh env names w = (Inr r, w2)"
    by (simp add: pushImagesToLocalRegistry_def p e)
  note pr = probeRegistry_run [OF p]
  have "failuresRecorded r0" using pr by (simp add: failuresRecorded_def)
  note all = pushEach_all [OF e this]
  from pr obtain ok0 where t0: "trace w1 = trace w @ [(Exec (probeCommand ?url), ok0)]" by blast
  from all obtain es where t: "trace w2 = trace w1 @ es"
    and st: "\<forall>n \<in> set names. \<exists>ok. (Exec (tagCommand n (originalLocalImageName ?url n)), ok) \<in> set es" by blast
  have "since w w2 = (Exec (probeCommand ?url), ok0) # es"
    using t0 t by (intro since_append) simp
  with st have "\<forall>n \<in> set names. \<exists>ok. (Exec (tagCommand n (originalLocalImageName ?url n)), ok) \<in> set (since w w2)"
    by auto
  with run all pr show ?thesis by simp
qed

lemma upload_after_load:
  assumes "validateDockerTarFile sh (path f) w = (Inr v, w1)" "isValid v"
    and "execPromise sh ''docker version'' w1 = (Inr out, w2)"
    and "loadDockerImagesFromTar sh (path f) w2 = (Inr lr, w3)"
    and "pushStage sh env lr \<lparr>errors = errors lr, warnings = warnings lr,
            pushedImages = [], loadedImages = images lr\<rparr> w3 = (res, w4)"
    and "unlink (path f) w4 = (u, w5)"
  shows "postUploadDockerTar sh env (Some f) w =
           (\<lparr>statusCode = 200,
             json = ResultJson ''Docker tar file uploaded and images processed successfully'' (filename f)
                      (case u of None \<Rightarrow> res
                       | Some msg \<Rightarrow> res\<lparr>warnings := warnings res @ [''Failed to cleanup tar file: '' @ msg]\<rparr>)\<rparr>,
            w5)"
  using assms
  by (simp add: postUploadDockerTar_def handleUpload_def processDockerTarFile_def processTry_def
           split: option.splits)

text \<open>
  C5. First, for every list of references and every world the pusher returns, and its log
  after the probe is one run for each reference of the list, in order: each reference gets
  its own tag and push commands up to its first rejected one, or all of them, whatever
  happened to the references before it. \<^verbatim>\<open>pushedImages\<close> holds for each reference the
  two outcomes of its own run, failed with the message of the rejection or successful, and
  \<^verbatim>\<open>errors\<close> holds \<^verbatim>\<open>Failed to push <image>: <message>\<close> for exactly the failed
  ones. Second, the first command of every reference is in the log, and every failed
  outcome has its message in \<^verbatim>\<open>errors\<close>. Third, a rejected tag or push command in the
  loop body of a reference appends the error of that reference and two failed outcomes.
  Fourth, when the validator accepts the upload, the engine answers and the loader has
  found images, the request is answered 200 whatever the pusher reports, and the response
  holds the loaded images, the outcomes and the errors of the pusher.
\<close>

theorem push_failure_does_not_abort:
  "(\<exists>pr w' ok0 runs. pushImagesToLocalRegistry sh env names w = (Inr pr, w')
       \<and> length runs = length names
       \<and> since w w' = (Exec (probeCommand (localRegistryUrl env)), ok0) # concat (map fst runs)
       \<and> (\<forall>i<length names. legalRun (localRegistryUrl env) (names ! i) (fst (runs ! i)) (snd (runs ! i)))
       \<and> pushedImages pr =
           concat (map (\<lambda>(n, run). outcomesOf (localRegistryUrl env) n (snd run)) (zip names runs))
       \<and> errors pr = concat (map (\<lambda>(n, run). errorsOf n (snd run)) (zip names runs)))
   \<and> (\<exists>pr w'. pushImagesToLocalRegistry sh env names w = (Inr pr, w')
       \<and> (\<forall>n \<in> set names. \<exists>ok.
             (Exec (tagCommand n (originalLocalImageName (localRegistryUrl env) n)), ok) \<in> set (since w w'))
       \<and> map originalName (pushedImages pr) = concat (map (\<lambda>n. [n, n]) names)
       \<and> (\<forall>p \<in> set (pushedImages pr). status p = failed \<longrightarrow>
             (\<exists>msg. pushError p = Some msg \<and>
                    ''Failed to push '' @ originalName p @ '': '' @ msg \<in> set (errors pr))))
   \<and> (pushImage sh url n r x = (r', x') \<and> (c, False) \<in> set (take 4 (since x x')) \<longrightarrow>
        (\<exists>msg. errors r' = errors r @ [''Failed to push '' @ n @ '': '' @ msg]
              \<and> map status (drop (length (pushedImages r)) (pushedImages r')) = [failed, failed]))
   \<and> (validateDockerTarFile sh (path f) u = (Inr v, u1) \<and> isValid v
       \<and> execPromise sh ''docker version'' u1 = (Inr out, u2)
       \<and> loadDockerImagesFromTar sh (path f) u2 = (Inr lr, u3) \<and> images lr \<noteq> []
       \<and> pushImagesToLocalRegistry sh env (images lr) u3 = (Inr pr', u4)
      \<longrightarrow> (\<exists>res u'. postUploadDockerTar sh env (Some f) u =
                (\<lparr>statusCode = 200,
                  json = ResultJson ''Docker tar file uploaded and images processed successfully''
                           (filename f) res\<rparr>, u')
              \<and> loadedImages res = images lr \<and> pushedImages res = pushedImages pr'
              \<and> errors res = errors lr @ errors pr'))"
proof (intro conjI impI)
  show "\<exists>pr w' ok0 runs. pushImagesToLocalRegistry sh env names w = (Inr pr, w')
       \<and> length runs = length names
       \<and> since w w' = (Exec (probeCommand (localRegistryUrl env)), ok0) # concat (map fst runs)
       \<and> (\<forall>i<length names. legalRun (localRegistryUrl env) (names ! i) (fst (runs ! i)) (snd (runs ! i)))
       \<and> pushedImages pr =
           concat (map (\<lambda>(n, run). outcomesOf (localRegistryUrl env) n (snd run)) (zip names runs))
       \<and> errors pr = concat (map (\<lambda>(n, run). errorsOf n (snd run)) (zip names runs))"
    by (rule pusher_runs)
next
  show "\<exists>pr w'. pushImagesToLocalRegistry sh env names w = (Inr pr, w')
       \<and> (\<forall>n \<in> set names. \<exists>ok.
             (Exec (tagCommand n (originalLocalImageName (localRegistryUrl env) n)), ok) \<in> set (since w w'))
       \<and> map originalName (pushedImages pr) = concat (map (\<lambda>n. [n, n]) names)
       \<and> (\<forall>p \<in> set (pushedImages pr). status p = failed \<longrightarrow>
             (\<exists>msg. pushError p = Some msg \<and>
                    ''Failed to push '' @ originalName p @ '': '' @ msg \<in> set (errors pr)))"
    using pusher_all [of sh env names w] unfolding failuresRecorded_def .
next
  assume "pushImage sh url n r x = (r', x') \<and> (c, False) \<in> set (take 4 (since x x'))"
  then show "\<exists>msg. errors r' = errors r @ [''Failed to push '' @ n @ '': '' @ msg]
              \<and> map status (drop (length (pushedImages r)) (pushedImages r')) = [failed, failed]"
    using pushImage_failure_recorded by blast
next
  assume a: "validateDockerTarFile sh (path f) u = (Inr v, u1) \<and> isValid v
       \<and> execPromise sh ''docker version'' u1 = (Inr out, u2)
       \<and> loadDockerImagesFromTar sh (path f) u2 = (Inr lr, u3) \<and> images lr \<noteq> []
       \<and> pushImagesToLocalRegistry sh env (images lr) u3 = (Inr pr', u4)"
  let ?res = "\<lparr>errors = errors lr @ errors pr', warnings = warnings lr @ warnings pr',
            pushedImages = pushedImages pr', loadedImages = images lr\<rparr>"
  have ps: "pushStage sh env lr \<lparr>errors = errors lr, warnings = warnings lr,
            pushedImages = [], loadedImages = images lr\<rparr> u3 = (?res, u4)"
    using a by (simp add: pushStage_def)
  obtain m u5 where ul: "unlink (path f) u4 = (m, u5)" by (cases "unlink (path f) u4")
  from a upload_after_load [OF _ _ _ _ ps ul]
  show "\<exists>res u'. postUploadDockerTar sh env (Some f) u =
                (\<lparr>statusCode = 200,
                  json = ResultJson ''Docker tar file uploaded and images processed successfully''
                           (filename f) res\<rparr>, u')
              \<and> loadedImages res = images lr \<and> pushedImages res = pushedImages pr'
              \<and> errors res = errors lr @ errors pr'"
    by (cases m) auto
qed

theorem push_failure_does_not_abort_witness:
  "(\<exists>res u'. postUploadDockerTar twoImagesShell None (Some twoImagesUpload) twoImagesWorld =
       (\<lparr>statusCode = 200,
         json = ResultJson ''Docker tar file uploaded and images processed successfully'' ''1-two.tar'' res\<rparr>, u')
     \<and> loadedImages res = [''bad:1'', ''good:2'']
     \<and> map status (pushedImages res) = [failed, failed, success, success]
     \<and> errors res = [''Failed to push bad:1: denied''])
   \<and> map status (pushedImages (fst (pushImage twoImagesShell ''100.103.254.213:5001'' ''bad:1''
                 \<lparr>errors = [], warnings = [], pushedImages = []\<rparr> emptyWorld)))
       = [failed, failed]"
proof -
  let ?sh = twoImagesShell and ?f = twoImagesUpload and ?w = twoImagesWorld
  let ?url = "''100.103.254.213:5001''" and ?r0 = "\<lparr>errors = [], warnings = [], pushedImages = []\<rparr>"
  define u1 where "u1 = snd (validateDockerTarFile ?sh (path ?f) ?w)"
  define u2 where "u2 = snd (execPromise ?sh ''docker version'' u1)"
  define u3 where "u3 = snd (loadDockerImagesFromTar ?sh (path ?f) u2)"
  define u4 where "u4 = snd (pushImagesToLocalRegistry ?sh None [''bad:1'', ''good:2''] u3)"
  define lr where "lr = \<lparr>errors = [], warnings = [], images = [''bad:1'', ''good:2'']\<rparr>"
  define pr where "pr = projr (fst (pushImagesToLocalRegistry ?sh None [''bad:1'', ''good:2''] u3))"
  define r' where "r' = fst (pushImage ?sh ?url ''bad:1'' ?r0 emptyWorld)"
  define x' where "x' = snd (pushImage ?sh ?url ''bad:1'' ?r0 emptyWorld)"
  have a: "validateDockerTarFile ?sh (path ?f) ?w = (Inr valid, u1)" "isValid valid"
    unfolding u1_def by (simp_all add: run_defs two_defs)
  have b: "execPromise ?sh ''docker version'' u1 = (Inr ([], []), u2)"
    unfolding u2_def u1_def by (simp add: run_defs two_defs)
  have c: "loadDockerImagesFromTar ?sh (path ?f) u2 = (Inr lr, u3)" "images lr \<noteq> []"
    unfolding u3_def u2_def u1_def lr_def
    by (simp_all add: run_defs two_defs)
  have d: "pushImagesToLocalRegistry ?sh None (images lr) u3 = (Inr pr, u4)"
    unfolding pr_def u4_def lr_def
    using pusher_all [of ?sh None "[''bad:1'', ''good:2'']" u3] by auto
  have e: "map status (pushedImages pr) = [failed, failed, success, success]"
      "errors pr = [''Failed to push bad:1: denied'']"
    unfolding pr_def u3_def u2_def u1_def
    by (simp_all add: run_defs two_defs)
  have f: "pushImage ?sh ?url ''bad:1'' ?r0 emptyWorld = (r', x')"
    unfolding r'_def x'_def by simp
  have g: "(Exec (pushCommand ''100.103.254.213:5001/bad:1''), False) \<in> set (take 4 (since emptyWorld x'))"
    unfolding x'_def by (simp add: run_defs two_defs)
  from push_failure_does_not_abort [of ?sh None "[''bad:1'', ''good:2'']" u3 ?url "''bad:1''" ?r0 emptyWorld
        r' x' "Exec (pushCommand ''100.103.254.213:5001/bad:1'')" ?f ?w valid u1 "([], [])" u2 lr u3 pr u4]
    a b c d e f g
  show ?thesis unfolding r'_def by (auto simp add: lr_def twoImagesUpload_def)
qed

section \<open>The loader\<close>

text \<open>
  The log of a list of commands, and what the second and the third strategy make of the
  replies of the engine.
\<close>

lemma runAll_log:
  "runAll sh cs w = (as, w') \<Longrightarrow>
   length as = length cs \<and> trace w' = trace w @ zip (map Exec cs) (map (Not \<circ> isl) as)"
proof (induction cs arbitrary: w as w')
  case Nil
  then show ?case by simp
next
  case (Cons c cs)
  obtain a w1 where e: "execPromise sh c w = (a, w1)" by (cases "execPromise sh c w")
  obtain as1 w2 where r: "runAll sh cs w1 = (as1, w2)" by (cases "runAll sh cs w1")
  from Cons.prems e r have eq: "as = a # as1" "w' = w2" by simp_all
  from e have t: "trace w1 = trace w @ [(Exec c, \<not> isl a)]"
    by (auto simp: execPromise_def logged_def split: prod.splits sum.splits)
  from Cons.IH [OF r] t eq show ?case by simp
qed

lemma inspectImageId_reply:
  assumes "execPromise sh (inspectCommand (imageIdOf m)) w = (a, w1)"
  shows "\<exists>r'. inspectImageId sh m r w = (r', w1)
           \<and> errors r' = errors r
           \<and> images r' = images r @ inspectedTags a
           \<and> warnings r' = warnings r @ inspectionWarnings (m, a)"
  using assms
  by (cases a)
     (auto simp: inspectImageId_def imageIdOf_def inspectedTags_def inspectionWarnings_def tagsOf_def
        undeterminedWarning_def Let_def)

lemma inspectImageIds_replies:
  "runAll sh (map (\<lambda>m. inspectCommand (imageIdOf m)) ms) w = (as, w2) \<Longrightarrow>
   \<exists>r'. inspectImageIds sh ms r w = (r', w2)
      \<and> errors r' = errors r
      \<and> images r' = images r @ concat (map inspectedTags as)
      \<and> warnings r' = warnings r @ concat (map inspectionWarnings (zip ms as))"
proof (induction ms arbitrary: r w as)
  case Nil
  then show ?case by auto
next
  case (Cons m ms)
  obtain a w1 where e: "execPromise sh (inspectCommand (imageIdOf m)) w = (a, w1)"
    by (cases "execPromise sh (inspectCommand (imageIdOf m)) w")
  obtain as1 w2' where r': "runAll sh (map (\<lambda>m. inspectCommand (imageIdOf m)) ms) w1 = (as1, w2')"
    by (cases "runAll sh (map (\<lambda>m. inspectCommand (imageIdOf m)) ms) w1")
  with Cons.prems e have eq: "as = a # as1" and "w2' = w2" by simp_all
  with r' have r: "runAll sh (map (\<lambda>m. inspectCommand (imageIdOf m)) ms) w1 = (as1, w2)" by simp
  from inspectImageId_reply [OF e, of r] obtain r1
    where 1: "inspectImageId sh m r w = (r1, w1)" "errors r1 = errors r"
      "images r1 = images r @ inspectedTags a" "warnings r1 = warnings r @ inspectionWarnings (m, a)"
    by blast
  from Cons.IH [OF r, of r1] obtain r'
    where 2: "inspectImageIds sh ms r1 w1 = (r', w2)" "errors r' = errors r1"
      "images r' = images r1 @ concat (map inspectedTags as1)"
      "warnings r' = warnings r1 @ concat (map inspectionWarnings (zip ms as1))"
    by blast
  from 1 2 eq show ?case by simp
qed

lemma recentImages_reply:
  assumes "execPromise sh imagesCommand w = (b, w3)"
  shows "\<exists>r'. recentImages sh r w = (r', w3)
           \<and> errors r' = errors r
           \<and> images r' = images r @ (case b of Inl msg \<Rightarrow> [] | Inr (out, err) \<Rightarrow> take 5 (listedImages out))
           \<and> warnings r' = warnings r @
                (case b of Inl msg \<Rightarrow> [''Could not determine loaded images'']
                 | Inr (out, err) \<Rightarrow> if listedImages out = [] then [] else [approximationWarning])"
proof (cases b)
  case (Inl msg)
  with assms show ?thesis by (simp add: recentImages_def)
next
  case (Inr oe)
  obtain out err where oe: "oe = (out, err)" by (cases oe)
  show ?thesis
  proof (cases "listedImages out = []")
    case True
    with assms Inr oe show ?thesis by (simp add: recentImages_def listedImages_def)
  next
    case False
    with assms Inr oe show ?thesis
      by (simp add: recentImages_def listedImages_def approximationWarning_def)
  qed
qed

text \<open>A line that the output of a load prints for an item is matched and gives the item back.\<close>

lemma startsWith_append: "startsWith (p @ s) p"
  by (induction p) simp_all

lemma startsWith_hd: "p \<noteq> [] \<Longrightarrow> c \<noteq> hd p \<Longrightarrow> \<not> startsWith (c # s) p"
  by (cases p) auto

lemma matchAll_line:
  assumes "lit \<noteq> []" "\<not> isLineTerminator (hd lit)" "n \<noteq> []" "\<forall>c \<in> set n. \<not> isLineTerminator c"
  shows "matchAll lit (lit @ n @ CHR 0x0A # rest) = (lit @ n) # matchAll lit rest"
proof -
  obtain c cs where lit: "lit = c # cs" using assms(1) by (cases lit) auto
  let ?s = "lit @ n @ CHR 0x0A # rest"
  have tw: "takeWhile (\<lambda>x. \<not> isLineTerminator x) (drop (length lit) ?s) = n"
    using assms(4) by (simp add: isLineTerminator_def)
  have s: "?s = c # (cs @ n @ CHR 0x0A # rest)" using lit by simp
  have sw: "startsWith (c # (cs @ n @ CHR 0x0A # rest)) lit" using startsWith_append [of lit] s by metis
  have dr: "drop (length lit + length n) ?s = CHR 0x0A # rest" by simp
  have nl: "\<not> startsWith (CHR 0x0A # rest) lit"
    using assms(1,2) by (intro startsWith_hd) (auto simp: isLineTerminator_def)
  have "matchAll lit ?s = (lit @ n) # matchAll lit (CHR 0x0A # rest)"
    unfolding s using sw tw dr assms(3) unfolding s by (simp del: startsWith.simps)
  also have "matchAll lit (CHR 0x0A # rest) = matchAll lit rest" using nl by simp
  finally show ?thesis .
qed

lemma matchAll_outputLines:
  assumes "lit \<noteq> []" "\<not> isLineTerminator (hd lit)" "\<forall>n \<in> set items. cleanItem n"
  shows "matchAll lit (outputLines lit items) = map (\<lambda>n. lit @ n) items"
  using assms(3)
proof (induction items)
  case Nil
  then show ?case by (simp add: outputLines_def)
next
  case (Cons n ns)
  then have "n \<noteq> []" "\<forall>c \<in> set n. \<not> isLineTerminator c" by (simp_all add: cleanItem_def)
  from matchAll_line [OF assms(1,2) this, of "outputLines lit ns"] Cons show ?case
    by (simp add: outputLines_def)
qed

lemma replace_prefix: "lit \<noteq> [] \<Longrightarrow> replace lit [] (lit @ n) = n"
proof -
  assume "lit \<noteq> []"
  then obtain c cs where lit: "lit = c # cs" by (cases lit) auto
  have "startsWith (c # (cs @ n)) (c # cs)" using startsWith_append [of "c # cs" n] by simp
  then show ?thesis unfolding lit by (simp del: startsWith.simps)
qed

lemma trim_clean: "cleanItem n \<Longrightarrow> trim n = n"
proof -
  assume c: "cleanItem n"
  then obtain x xs where n: "n = x # xs" and x: "\<not> isWhiteSpace x" by (cases n) (auto simp: cleanItem_def)
  from c have "rev n \<noteq> []" "\<not> isWhiteSpace (hd (rev n))" by (simp_all add: cleanItem_def hd_rev)
  then obtain y ys where r: "rev n = y # ys" and y: "\<not> isWhiteSpace y" by (cases "rev n") auto
  have "dropWhile isWhiteSpace n = n" using n x by simp
  moreover have "dropWhile isWhiteSpace (rev n) = rev n" using r y by simp
  ultimately show ?thesis by (simp add: trim_def)
qed

lemma loadedImageNames_outputLines:
  assumes "\<forall>n \<in> set names. cleanItem n"
  shows "loadedImageNames (outputLines ''Loaded image: '' names) = names"
proof -
  have "matchAll ''Loaded image: '' (outputLines ''Loaded image: '' names) = map (\<lambda>n. ''Loaded image: '' @ n) names"
    using assms by (intro matchAll_outputLines) (simp_all add: isLineTerminator_def)
  moreover have "trim (replace ''Loaded image: '' [] (''Loaded image: '' @ n)) = n" if "n \<in> set names" for n
    using replace_prefix [of "''Loaded image: ''" n] trim_clean [of n] that assms by simp
  ultimately show ?thesis by (simp add: loadedImageNames_def comp_def map_idI)
qed

lemma imageIds_outputLines:
  assumes "\<forall>n \<in> set ids. cleanItem n"
  shows "map imageIdOf (matchAll ''Loaded image ID: '' (outputLines ''Loaded image ID: '' ids)) = ids"
proof -
  have "matchAll ''Loaded image ID: '' (outputLines ''Loaded image ID: '' ids) = map (\<lambda>n. ''Loaded image ID: '' @ n) ids"
    using assms by (intro matchAll_outputLines) (simp_all add: isLineTerminator_def)
  moreover have "trim (replace ''Loaded image ID: '' [] (''Loaded image ID: '' @ n)) = n" if "n \<in> set ids" for n
    using replace_prefix [of "''Loaded image ID: ''" n] trim_clean [of n] that assms by simp
  ultimately show ?thesis by (simp add: imageIdOf_def comp_def map_idI)
qed

text \<open>The three strategies, one after the other.\<close>

lemma recoverImages_replies:
  assumes "runAll sh (map (\<lambda>m. inspectCommand (imageIdOf m)) (matchAll ''Loaded image ID: '' out)) w = (as, w2)"
      and "execPromise sh imagesCommand w2 = (b, w3)"
  shows "\<exists>r w'. recoverImages sh out \<lparr>errors = es, warnings = ws, images = []\<rparr> w = (r, w')
       \<and> errors r = es
       \<and> (loadedImageNames out \<noteq> [] \<longrightarrow>
            images r = loadedImageNames out \<and> warnings r = ws \<and> w' = w)
       \<and> (loadedImageNames out = [] \<and> concat (map inspectedTags as) \<noteq> [] \<longrightarrow>
            images r = concat (map inspectedTags as)
          \<and> warnings r = ws @ concat (map inspectionWarnings (zip (matchAll ''Loaded image ID: '' out) as))
          \<and> w' = w2)
       \<and> (loadedImageNames out = [] \<and> concat (map inspectedTags as) = [] \<longrightarrow>
            images r = (case b of Inl msg \<Rightarrow> [] | Inr (listing, err) \<Rightarrow> take 5 (listedImages listing))
          \<and> warnings r = ws @ concat (map inspectionWarnings (zip (matchAll ''Loaded image ID: '' out) as))
                @ (case b of Inl msg \<Rightarrow> [''Could not determine loaded images'']
                   | Inr (listing, err) \<Rightarrow> if listedImages listing = [] then [] else [approximationWarning])
          \<and> w' = w3)"
proof -
  define tags where "tags = concat (map inspectedTags as)"
  define advice where "advice = concat (map inspectionWarnings (zip (matchAll ''Loaded image ID: '' out) as))"
  let ?r0 = "\<lparr>errors = es, warnings = ws, images = []\<rparr>"
  from inspectImageIds_replies [OF assms(1), of ?r0] obtain r2
    where 2: "inspectImageIds sh (matchAll ''Loaded image ID: '' out) ?r0 w = (r2, w2)"
      "errors r2 = es" "images r2 = tags" "warnings r2 = ws @ advice"
    unfolding tags_def advice_def by auto
  from recentImages_reply [OF assms(2), of r2] obtain r3
    where 3: "recentImages sh r2 w2 = (r3, w3)" "errors r3 = errors r2"
      "images r3 = images r2 @ (case b of Inl msg \<Rightarrow> [] | Inr (listing, err) \<Rightarrow> take 5 (listedImages listing))"
      "warnings r3 = warnings r2 @
              (case b of Inl msg \<Rightarrow> [''Could not determine loaded images'']
               | Inr (listing, err) \<Rightarrow> if listedImages listing = [] then [] else [approximationWarning])"
    by blast
  have "\<exists>r w'. recoverImages sh out ?r0 w = (r, w')
       \<and> errors r = es
       \<and> (loadedImageNames out \<noteq> [] \<longrightarrow>
            images r = loadedImageNames out \<and> warnings r = ws \<and> w' = w)
       \<and> (loadedImageNames out = [] \<and> tags \<noteq> [] \<longrightarrow>
            images r = tags \<and> warnings r = ws @ advice \<and> w' = w2)
       \<and> (loadedImageNames out = [] \<and> tags = [] \<longrightarrow>
            images r = (case b of Inl msg \<Rightarrow> [] | Inr (listing, err) \<Rightarrow> take 5 (listedImages listing))
          \<and> warnings r = ws @ advice
                @ (case b of Inl msg \<Rightarrow> [''Could not determine loaded images'']
                   | Inr (listing, err) \<Rightarrow> if listedImages listing = [] then [] else [approximationWarning])
          \<and> w' = w3)"
  proof (cases "loadedImageNames out = []")
    case False
    then show ?thesis by (simp add: recoverImages_def)
  next
    case True
    show ?thesis
    proof (cases "tags = []")
      case False
      with True 2 have "recoverImages sh out ?r0 w = (r2, w2)" by (simp add: recoverImages_def)
      with True False 2 show ?thesis by simp
    next
      case e: True
      with True 2 3(1) have "recoverImages sh out ?r0 w = (r3, w3)" by (simp add: recoverImages_def)
      with True 2 e 3 show ?thesis by simp
    qed
  qed
  then show ?thesis unfolding tags_def advice_def .
qed

text \<open>
  C6, as the code has it. The replies of the engine are named: those to the inspections of
  the ids that the output of the load prints, run one after the other, and then the one to
  the listing of images. When the output of the load names images, they are the result, in
  order, and no command is run. Otherwise the ids are inspected, one command for each in
  order; the images are the tags that the inspections print, and there is a warning for
  exactly those ids whose inspection is rejected (an inspection that succeeds adds none,
  whether it prints a tag or not); when there is a tag, nothing else is run. Only when
  there is none the engine's list is consulted, with one command: the images are the first
  five that it lists, empty lines and \<^verbatim>\<open><none>:<none>\<close> left out, with the warning of
  the approximation when there is one, no warning when the list is empty, and the warning
  that the images could not be determined when the command is rejected. No strategy adds an
  error. An output of one line \<^verbatim>\<open>Loaded image: name\<close> (or \<^verbatim>\<open>Loaded image ID: id\<close>)
  for each item gives these items back.
\<close>

theorem recovery_in_priority_order:
  assumes "recoverImages sh out \<lparr>errors = [], warnings = ws, images = []\<rparr> w = (r, w')"
      and "runAll sh (map (\<lambda>m. inspectCommand (imageIdOf m)) (matchAll ''Loaded image ID: '' out)) w = (as, w2)"
      and "execPromise sh imagesCommand w2 = (b, w3)"
  shows "errors r = []
       \<and> (loadedImageNames out \<noteq> [] \<longrightarrow>
            images r = loadedImageNames out \<and> warnings r = ws \<and> w' = w)
       \<and> (loadedImageNames out = [] \<and> concat (map inspectedTags as) \<noteq> [] \<longrightarrow>
            images r = concat (map inspectedTags as)
          \<and> warnings r = ws @ concat (map inspectionWarnings (zip (matchAll ''Loaded image ID: '' out) as))
          \<and> w' = w2)
       \<and> (loadedImageNames out = [] \<and> concat (map inspectedTags as) = [] \<longrightarrow>
            images r = (case b of Inl msg \<Rightarrow> [] | Inr (listing, err) \<Rightarrow> take 5 (listedImages listing))
          \<and> warnings r = ws @ concat (map inspectionWarnings (zip (matchAll ''Loaded image ID: '' out) as))
                @ (case b of Inl msg \<Rightarrow> [''Could not determine loaded images'']
                   | Inr (listing, err) \<Rightarrow> if listedImages listing = [] then [] else [approximationWarning])
          \<and> w' = w3)
       \<and> since w w2 = zip (map (\<lambda>m. Exec (inspectCommand (imageIdOf m))) (matchAll ''Loaded image ID: '' out))
                         (map (Not \<circ> isl) as)
       \<and> since w2 w3 = [(Exec imagesCommand, \<not> isl b)]
       \<and> ((\<forall>n \<in> set names. cleanItem n) \<longrightarrow>
            loadedImageNames (outputLines ''Loaded image: '' names) = names
          \<and> map imageIdOf (matchAll ''Loaded image ID: '' (outputLines ''Loaded image ID: '' names)) = names)"
proof -
  from recoverImages_replies [OF assms(2,3), of "[]" ws] obtain r0 w0
    where run: "recoverImages sh out \<lparr>errors = [], warnings = ws, images = []\<rparr> w = (r0, w0)"
      and main: "errors r0 = []
       \<and> (loadedImageNames out \<noteq> [] \<longrightarrow>
            images r0 = loadedImageNames out \<and> warnings r0 = ws \<and> w0 = w)
       \<and> (loadedImageNames out = [] \<and> concat (map inspectedTags as) \<noteq> [] \<longrightarrow>
            images r0 = concat (map inspectedTags as)
          \<and> warnings r0 = ws @ concat (map inspectionWarnings (zip (matchAll ''Loaded image ID: '' out) as))
          \<and> w0 = w2)
       \<and> (loadedImageNames out = [] \<and> concat (map inspectedTags as) = [] \<longrightarrow>
            images r0 = (case b of Inl msg \<Rightarrow> [] | Inr (listing, err) \<Rightarrow> take 5 (listedImages listing))
          \<and> warnings r0 = ws @ concat (map inspectionWarnings (zip (matchAll ''Loaded image ID: '' out) as))
                @ (case b of Inl msg \<Rightarrow> [''Could not determine loaded images'']
                   | Inr (listing, err) \<Rightarrow> if listedImages listing = [] then [] else [approximationWarning])
          \<and> w0 = w3)"
    by blast
  from run assms(1) have same: "r0 = r" "w0 = w'" by simp_all
  from runAll_log [OF assms(2)]
  have log2: "since w w2 = zip (map (\<lambda>m. Exec (inspectCommand (imageIdOf m))) (matchAll ''Loaded image ID: '' out))
                         (map (Not \<circ> isl) as)"
    by (intro since_append) (simp add: comp_def)
  from assms(3) have "trace w3 = trace w2 @ [(Exec imagesCommand, \<not> isl b)]"
    by (auto simp: execPromise_def logged_def split: prod.splits sum.splits)
  then have log3: "since w2 w3 = [(Exec imagesCommand, \<not> isl b)]" by (rule since_append)
  have trip: "(\<forall>n \<in> set names. cleanItem n) \<longrightarrow>
            loadedImageNames (outputLines ''Loaded image: '' names) = names
          \<and> map imageIdOf (matchAll ''Loaded image ID: '' (outputLines ''Loaded image ID: '' names)) = names"
    using loadedImageNames_outputLines [of names] imageIds_outputLines [of names] by blast
  from main [unfolded same] log2 log3 trip show ?thesis by (intro conjI) blast+
qed

theorem recovery_in_priority_order_witness:
  "fst (recoverImages inspectShell (''Loaded image ID: sha256:aaa'' @ [CHR 0x0A] @ ''Loaded image ID: sha256:bbb'' @ [CHR 0x0A]) \<lparr>errors = [], warnings = [], images = []\<rparr> emptyWorld)
     = \<lparr>errors = [], warnings = [undeterminedWarning ''sha256:aaa''], images = [''web:2'', ''web:latest'']\<rparr>
   \<and> since emptyWorld (snd (recoverImages inspectShell (''Loaded image ID: sha256:aaa'' @ [CHR 0x0A] @ ''Loaded image ID: sha256:bbb'' @ [CHR 0x0A]) \<lparr>errors = [], warnings = [], images = []\<rparr> emptyWorld))
     = [(Exec (inspectCommand ''sha256:aaa''), False), (Exec (inspectCommand ''sha256:bbb''), True)]
   \<and> loadedImageNames (outputLines ''Loaded image: '' [''web:2'', ''db:latest'']) = [''web:2'', ''db:latest'']"
  using recovery_in_priority_order [of inspectShell "(''Loaded image ID: sha256:aaa'' @ [CHR 0x0A] @ ''Loaded image ID: sha256:bbb'' @ [CHR 0x0A])" "[]" emptyWorld
      "fst (recoverImages inspectShell (''Loaded image ID: sha256:aaa'' @ [CHR 0x0A] @ ''Loaded image ID: sha256:bbb'' @ [CHR 0x0A]) \<lparr>errors = [], warnings = [], images = []\<rparr> emptyWorld)"
      "snd (recoverImages inspectShell (''Loaded image ID: sha256:aaa'' @ [CHR 0x0A] @ ''Loaded image ID: sha256:bbb'' @ [CHR 0x0A]) \<lparr>errors = [], warnings = [], images = []\<rparr> emptyWorld)"
      "fst (runAll inspectShell (map (\<lambda>m. inspectCommand (imageIdOf m)) (matchAll ''Loaded image ID: '' (''Loaded image ID: sha256:aaa'' @ [CHR 0x0A] @ ''Loaded image ID: sha256:bbb'' @ [CHR 0x0A]))) emptyWorld)"
      "snd (runAll inspectShell (map (\<lambda>m. inspectCommand (imageIdOf m)) (matchAll ''Loaded image ID: '' (''Loaded image ID: sha256:aaa'' @ [CHR 0x0A] @ ''Loaded image ID: sha256:bbb'' @ [CHR 0x0A]))) emptyWorld)"
      "fst (execPromise inspectShell imagesCommand (snd (runAll inspectShell (map (\<lambda>m. inspectCommand (imageIdOf m)) (matchAll ''Loaded image ID: '' (''Loaded image ID: sha256:aaa'' @ [CHR 0x0A] @ ''Loaded image ID: sha256:bbb'' @ [CHR 0x0A]))) emptyWorld)))"
      "snd (execPromise inspectShell imagesCommand (snd (runAll inspectShell (map (\<lambda>m. inspectCommand (imageIdOf m)) (matchAll ''Loaded image ID: '' (''Loaded image ID: sha256:aaa'' @ [CHR 0x0A] @ ''Loaded image ID: sha256:bbb'' @ [CHR 0x0A]))) emptyWorld)))"
      "[''web:2'', ''db:latest'']"]
  by (simp add: run_defs untagged_defs statement_defs tagsOf_def listedImages_def inspectedTags_def
        inspectionWarnings_def outputLines_def cleanItem_def)

text \<open>
  The claim as the specification words it fails where an inspection succeeds and prints no
  tag: the load prints one id, its inspection succeeds with an empty line, and the result
  has no warning about that id.
\<close>

theorem inspection_without_tags_counterexample:
  "fst (loadDockerImagesFromTar untaggedShell ''/uploads/9-app.tar'' plainWorld)
     = Inr \<lparr>errors = [''No Docker images were successfully loaded from the tar file''],
            warnings = [], images = []\<rparr>
   \<and> trace (snd (loadDockerImagesFromTar untaggedShell ''/uploads/9-app.tar'' plainWorld))
     = [(PathExists ''/uploads/9-app.tar'', True),
        (Exec (''docker load -i '' @ dquote ''/uploads/9-app.tar''), True),
        (Exec (inspectCommand ''sha256:abc''), True),
        (Exec imagesCommand, True)]"
  by (simp add: run_defs untagged_defs)

section \<open>The upload route with a file\<close>

lemma quiet_refl [simp]: "quiet w w"
  by (simp add: quiet_def)

lemma quiet_trans: "quiet w w1 \<Longrightarrow> quiet w1 w2 \<Longrightarrow> quiet w w2"
  by (auto simp: quiet_def)

lemma execPromise_quiet: "execPromise sh c w = (r, w') \<Longrightarrow> quiet w w'"
  by (auto simp: quiet_def dest: execPromise_trace)


lemma pathExists_quiet: "pathExists p w = (r, w') \<Longrightarrow> quiet w w'"
  by (auto simp: quiet_def pathExists_def logged_def)



lemma inspectImageId_quiet: "inspectImageId sh m r w = (r', w') \<Longrightarrow> quiet w w'"
  by (auto simp: inspectImageId_def Let_def split: prod.splits sum.splits dest!: execPromise_quiet)

lemma inspectImageIds_quiet: "inspectImageIds sh ms r w = (r', w') \<Longrightarrow> quiet w w'"
proof (induction ms arbitrary: r w)
  case Nil
  then show ?case by simp
next
  case (Cons m ms)
  obtain r1 w1 where 1: "inspectImageId sh m r w = (r1, w1)" by (cases "inspectImageId sh m r w")
  with Cons.prems have "inspectImageIds sh ms r1 w1 = (r', w')" by simp
  from Cons.IH [OF this] inspectImageId_quiet [OF 1] show ?case by (rule quiet_trans [rotated])
qed

lemma recentImages_quiet: "recentImages sh r w = (r', w') \<Longrightarrow> quiet w w'"
  by (auto simp: recentImages_def Let_def split: prod.splits sum.splits if_splits dest!: execPromise_quiet)

lemma recoverImages_quiet: "recoverImages sh out r w = (r', w') \<Longrightarrow> quiet w w'"
  by (auto simp: recoverImages_def Let_def split: prod.splits if_splits
           dest!: inspectImageIds_quiet recentImages_quiet intro: quiet_trans)

lemma loadTry_quiet: "loadTry sh p w = (r, w') \<Longrightarrow> quiet w w'"
  by (auto simp: loadTry_def split: prod.splits sum.splits if_splits
           dest!: pathExists_quiet execPromise_quiet recoverImages_quiet intro: quiet_trans)

lemma load_quiet:
  "loadDockerImagesFromTar sh p w = (r, w') \<Longrightarrow> quiet w w' \<and> (\<exists>lr. r = Inr lr)"
  by (auto simp: loadDockerImagesFromTar_def split: prod.splits sum.splits dest!: loadTry_quiet)







lemma unlink_event:
  "unlink p w = (u, w') \<Longrightarrow>
   trace w' = trace w @ [(Unlink p, u = None)]
   \<and> (u = None \<longrightarrow> files w' p = None)
   \<and> (files w' p \<noteq> None \<longrightarrow> (\<exists>n. files w p = Some n \<and> undeletable n))"
  by (auto simp: unlink_def logged_def split: option.splits if_splits)







subsection \<open>No image, no push\<close>

text \<open>What the loader returns, by the reply to the load command.\<close>

lemma recoverImages_errors:
  "recoverImages sh out \<lparr>errors = es, warnings = ws, images = []\<rparr> w = (r, w') \<Longrightarrow> errors r = es"
proof -
  assume a: "recoverImages sh out \<lparr>errors = es, warnings = ws, images = []\<rparr> w = (r, w')"
  obtain as w2 where 1: "runAll sh (map (\<lambda>m. inspectCommand (imageIdOf m)) (matchAll ''Loaded image ID: '' out)) w = (as, w2)"
    by (cases "runAll sh (map (\<lambda>m. inspectCommand (imageIdOf m)) (matchAll ''Loaded image ID: '' out)) w")
  obtain b w3 where 2: "execPromise sh imagesCommand w2 = (b, w3)"
    by (cases "execPromise sh imagesCommand w2")
  from recoverImages_replies [OF 1 2, of es ws] a show ?thesis by auto
qed

lemma loader_cases:
  assumes "loadDockerImagesFromTar sh p w = (Inr r, w')"
      and "pathExists p w = (found, w1)"
      and "execPromise sh (''docker load -i '' @ dquote p) w1 = (d, w2)"
  shows "(\<not> found \<longrightarrow>
            r = \<lparr>errors = [''Failed to load images from tar: Tar file not found''], warnings = [], images = []\<rparr>
          \<and> w' = w1)
       \<and> (found \<longrightarrow>
            (case d of
               Inl msg \<Rightarrow>
                 r = \<lparr>errors = [''Failed to load images from tar: '' @ msg], warnings = [], images = []\<rparr>
               \<and> w' = w2
             | Inr (out, err) \<Rightarrow>
                 (\<exists>r0. recoverImages sh out \<lparr>errors = [], warnings = loadStderrWarnings err, images = []\<rparr> w2
                         = (r0, w')
                     \<and> images r = images r0 \<and> warnings r = warnings r0)
               \<and> errors r = (if images r = []
                              then [''No Docker images were successfully loaded from the tar file'']
                              else [])))"
proof (cases found)
  case False
  with assms(1,2) show ?thesis by (simp add: loadDockerImagesFromTar_def loadTry_def)
next
  case True
  show ?thesis
  proof (cases d)
    case (Inl msg)
    with True assms show ?thesis by (simp add: loadDockerImagesFromTar_def loadTry_def)
  next
    case (Inr oe)
    obtain out err where oe: "oe = (out, err)" by (cases oe)
    obtain r0 w3 where rc: "recoverImages sh out \<lparr>errors = [], warnings = loadStderrWarnings err, images = []\<rparr> w2 = (r0, w3)"
      by (cases "recoverImages sh out \<lparr>errors = [], warnings = loadStderrWarnings err, images = []\<rparr> w2")
    note e0 = recoverImages_errors [OF rc]
    from assms True Inr oe rc
    have "w' = w3" "r = (if images r0 = [] then r0\<lparr>errors := errors r0 @
                                 [''No Docker images were successfully loaded from the tar file'']\<rparr> else r0)"
      by (auto simp: loadDockerImagesFromTar_def loadTry_def split: if_splits)
    with True Inr oe rc e0 show ?thesis by simp
  qed
qed

text \<open>
  C4, as the code has it. The loader never throws. When the file is missing or the load
  command is rejected, no strategy runs and the loader returns no image and the one error
  \<^verbatim>\<open>Failed to load images from tar: <message>\<close>. When the load command succeeds, the
  images and warnings are those of the three strategies on its output, and \<^verbatim>\<open>errors\<close>
  is \<^verbatim>\<open>No Docker images were successfully loaded from the tar file\<close> alone when no
  strategy has recovered an image, and empty otherwise. When the loader returns no image
  inside a request (the validator has accepted the file and the engine has answered), the
  only call made after the loader is the removal of the file, so no push stage runs; the
  response is 200 and holds empty \<^verbatim>\<open>loadedImages\<close> and \<^verbatim>\<open>pushedImages\<close> and the
  errors of the loader.
\<close>

theorem no_images_no_push:
  "(\<exists>r w'. loadDockerImagesFromTar sh p w = (Inr r, w'))
   \<and> (loadDockerImagesFromTar sh p w = (Inr r, w')
        \<and> pathExists p w = (found, w1)
        \<and> execPromise sh (''docker load -i '' @ dquote p) w1 = (d, w2)
      \<longrightarrow> (\<not> found \<longrightarrow>
            r = \<lparr>errors = [''Failed to load images from tar: Tar file not found''], warnings = [], images = []\<rparr>
          \<and> w' = w1)
       \<and> (found \<longrightarrow>
            (case d of
               Inl msg \<Rightarrow>
                 r = \<lparr>errors = [''Failed to load images from tar: '' @ msg], warnings = [], images = []\<rparr>
               \<and> w' = w2
             | Inr (out, err) \<Rightarrow>
                 (\<exists>r0. recoverImages sh out \<lparr>errors = [], warnings = loadStderrWarnings err, images = []\<rparr> w2
                         = (r0, w')
                     \<and> images r = images r0 \<and> warnings r = warnings r0)
               \<and> errors r = (if images r = []
                              then [''No Docker images were successfully loaded from the tar file'']
                              else []))))
   \<and> (validateDockerTarFile sh (path f) u = (Inr v, u1) \<and> isValid v
        \<and> execPromise sh ''docker version'' u1 = (Inr out, u2)
        \<and> loadDockerImagesFromTar sh (path f) u2 = (Inr lr, u3) \<and> images lr = []
      \<longrightarrow> (\<exists>res u' ok. postUploadDockerTar sh env (Some f) u =
                (\<lparr>statusCode = 200,
                  json = ResultJson ''Docker tar file uploaded and images processed successfully''
                           (filename f) res\<rparr>, u')
              \<and> loadedImages res = [] \<and> pushedImages res = [] \<and> errors res = errors lr
              \<and> since u3 u' = [(Unlink (path f), ok)]))"
proof -
  have A: "\<exists>r w'. loadDockerImagesFromTar sh p w = (Inr r, w')"
    using load_quiet by (cases "loadDockerImagesFromTar sh p w") blast
  have B: "loadDockerImagesFromTar sh p w = (Inr r, w')
        \<and> pathExists p w = (found, w1)
        \<and> execPromise sh (''docker load -i '' @ dquote p) w1 = (d, w2)
      \<longrightarrow> (\<not> found \<longrightarrow>
            r = \<lparr>errors = [''Failed to load images from tar: Tar file not found''], warnings = [], images = []\<rparr>
          \<and> w' = w1)
       \<and> (found \<longrightarrow>
            (case d of
               Inl msg \<Rightarrow>
                 r = \<lparr>errors = [''Failed to load images from tar: '' @ msg], warnings = [], images = []\<rparr>
               \<and> w' = w2
             | Inr (out, err) \<Rightarrow>
                 (\<exists>r0. recoverImages sh out \<lparr>errors = [], warnings = loadStderrWarnings err, images = []\<rparr> w2
                         = (r0, w')
                     \<and> images r = images r0 \<and> warnings r = warnings r0)
               \<and> errors r = (if images r = []
                              then [''No Docker images were successfully loaded from the tar file'']
                              else [])))"
  proof (rule impI)
  assume a: "loadDockerImagesFromTar sh p w = (Inr r, w')
        \<and> pathExists p w = (found, w1)
        \<and> execPromise sh (''docker load -i '' @ dquote p) w1 = (d, w2)"
  then have 1: "loadDockerImagesFromTar sh p w = (Inr r, w')" and 2: "pathExists p w = (found, w1)"
    and 3: "execPromise sh (''docker load -i '' @ dquote p) w1 = (d, w2)" by simp_all
  from loader_cases [OF 1 2 3]
  show "(\<not> found \<longrightarrow>
            r = \<lparr>errors = [''Failed to load images from tar: Tar file not found''], warnings = [], images = []\<rparr>
          \<and> w' = w1)
       \<and> (found \<longrightarrow>
            (case d of
               Inl msg \<Rightarrow>
                 r = \<lparr>errors = [''Failed to load images from tar: '' @ msg], warnings = [], images = []\<rparr>
               \<and> w' = w2
             | Inr (out, err) \<Rightarrow>
                 (\<exists>r0. recoverImages sh out \<lparr>errors = [], warnings = loadStderrWarnings err, images = []\<rparr> w2
                         = (r0, w')
                     \<and> images r = images r0 \<and> warnings r = warnings r0)
               \<and> errors r = (if images r = []
                              then [''No Docker images were successfully loaded from the tar file'']
                              else [])))" .
  qed
  have C: "validateDockerTarFile sh (path f) u = (Inr v, u1) \<and> isValid v
        \<and> execPromise sh ''docker version'' u1 = (Inr out, u2)
        \<and> loadDockerImagesFromTar sh (path f) u2 = (Inr lr, u3) \<and> images lr = []
      \<longrightarrow> (\<exists>res u' ok. postUploadDockerTar sh env (Some f) u =
                (\<lparr>statusCode = 200,
                  json = ResultJson ''Docker tar file uploaded and images processed successfully''
                           (filename f) res\<rparr>, u')
              \<and> loadedImages res = [] \<and> pushedImages res = [] \<and> errors res = errors lr
              \<and> since u3 u' = [(Unlink (path f), ok)])"
  proof (rule impI)
  assume a: "validateDockerTarFile sh (path f) u = (Inr v, u1) \<and> isValid v
        \<and> execPromise sh ''docker version'' u1 = (Inr out, u2)
        \<and> loadDockerImagesFromTar sh (path f) u2 = (Inr lr, u3) \<and> images lr = []"
  let ?res = "\<lparr>errors = errors lr, warnings = warnings lr @ [''No images were loaded from the tar file''],
            pushedImages = [], loadedImages = images lr\<rparr>"
  have ps: "pushStage sh env lr \<lparr>errors = errors lr, warnings = warnings lr,
            pushedImages = [], loadedImages = images lr\<rparr> u3 = (?res, u3)"
    using a by (simp add: pushStage_def)
  obtain m u5 where ul: "unlink (path f) u3 = (m, u5)" by (cases "unlink (path f) u3")
  have "since u3 u5 = [(Unlink (path f), m = None)]"
    using unlink_event [OF ul] by (intro since_append) simp
  with a upload_after_load [OF _ _ _ _ ps ul]
  show "\<exists>res u' ok. postUploadDockerTar sh env (Some f) u =
                (\<lparr>statusCode = 200,
                  json = ResultJson ''Docker tar file uploaded and images processed successfully''
                           (filename f) res\<rparr>, u')
              \<and> loadedImages res = [] \<and> pushedImages res = [] \<and> errors res = errors lr
              \<and> since u3 u' = [(Unlink (path f), ok)]"
    by (cases m) auto
  qed
  show ?thesis by (rule conjI [OF A conjI [OF B C]])
qed

theorem no_images_no_push_witness:
  "\<exists>res u'. postUploadDockerTar (scriptedShell []) None (Some appUpload) plainWorld =
       (\<lparr>statusCode = 200,
         json = ResultJson ''Docker tar file uploaded and images processed successfully'' ''9-app.tar'' res\<rparr>, u')
     \<and> loadedImages res = [] \<and> pushedImages res = []
     \<and> errors res = [''No Docker images were successfully loaded from the tar file'']"
proof -
  let ?sh = "scriptedShell [] :: unit shell" and ?f = appUpload and ?w = plainWorld
  define u1 where "u1 = snd (validateDockerTarFile ?sh (path ?f) ?w)"
  define u2 where "u2 = snd (execPromise ?sh ''docker version'' u1)"
  define u3 where "u3 = snd (loadDockerImagesFromTar ?sh (path ?f) u2)"
  define lr where "lr = \<lparr>errors = [''No Docker images were successfully loaded from the tar file''],
                         warnings = [], images = []\<rparr>"
  define x1 where "x1 = snd (pathExists (path ?f) u2)"
  define x2 where "x2 = snd (execPromise ?sh (''docker load -i '' @ dquote (path ?f)) x1)"
  have a: "validateDockerTarFile ?sh (path ?f) ?w = (Inr valid, u1)" "isValid valid"
    unfolding u1_def by (simp_all add: run_defs locked_defs)
  have b: "execPromise ?sh ''docker version'' u1 = (Inr ([], []), u2)"
    unfolding u2_def u1_def by (simp add: run_defs locked_defs)
  have c: "loadDockerImagesFromTar ?sh (path ?f) u2 = (Inr lr, u3)" "images lr = []"
    unfolding u3_def u2_def u1_def lr_def by (simp_all add: run_defs locked_defs)
  have d: "pathExists (path ?f) u2 = (True, x1)"
    unfolding x1_def u2_def u1_def by (simp add: run_defs locked_defs)
  have e: "execPromise ?sh (''docker load -i '' @ dquote (path ?f)) x1 = (Inr ([], []), x2)"
    unfolding x2_def x1_def u2_def u1_def by (simp add: run_defs locked_defs)
  from no_images_no_push [of ?sh "path ?f" u2 lr u3 True x1 "Inr ([], [])" x2 ?f ?w valid u1 "([], [])" u2 lr u3 None]
    a b c d e
  show ?thesis by (auto simp add: lr_def appUpload_def)
qed

text \<open>
  The claim as the specification words it fails where the load command is rejected: no
  image is recovered, the error of the loader is that of the rejected load and not
  \<^verbatim>\<open>No Docker images were successfully loaded from the tar file\<close>, and the response is
  200 with that error.
\<close>

theorem rejected_load_counterexample:
  "fst (loadDockerImagesFromTar rejectedLoadShell ''/uploads/9-app.tar'' plainWorld)
     = Inr \<lparr>errors = [''Failed to load images from tar: invalid tar header''], warnings = [], images = []\<rparr>
   \<and> ''No Docker images were successfully loaded from the tar file''
       \<notin> set [''Failed to load images from tar: invalid tar header'']
   \<and> fst (postUploadDockerTar rejectedLoadShell None (Some appUpload) plainWorld)
     = \<lparr>statusCode = 200,
        json = ResultJson ''Docker tar file uploaded and images processed successfully'' ''9-app.tar''
          \<lparr>errors = [''Failed to load images from tar: invalid tar header''],
           warnings = [''No images were loaded from the tar file''],
           pushedImages = [], loadedImages = []\<rparr>\<rparr>"
  by (simp add: handler_defs run_defs locked_defs rejectedLoadShell_def)

section \<open>Registry targets\<close>

lemma split_not_Nil [simp]: "split c s \<noteq> []"
  by (induction s) (auto split: list.splits)

lemma split_unfold:
  "split c s = takeWhile (\<lambda>x. x \<noteq> c) s #
     (case dropWhile (\<lambda>x. x \<noteq> c) s of [] \<Rightarrow> [] | _ # rest \<Rightarrow> split c rest)"
  by (induction s) (auto split: list.splits)

lemma split_without: "c \<notin> set s \<Longrightarrow> split c s = [s]"
  by (induction s) auto

lemma split_append: "split c (p @ c # b) = split c p @ split c b"
proof (induction p)
  case Nil
  show ?case by simp
next
  case (Cons x p)
  obtain y ys where "split c p = y # ys" by (cases "split c p") auto
  with Cons show ?case by simp
qed

lemma takeWhile_rev_all: "c \<notin> set s \<Longrightarrow> takeWhile (\<lambda>x. x \<noteq> c) (rev s) = rev s"
  by (rule takeWhile_eq_all_conv [THEN iffD2]) auto

lemma last_split: "last (split CHR ''/'' s) = lastSegment s"
proof (cases "CHR ''/'' \<in> set s")
  case False
  then show ?thesis by (simp add: split_without lastSegment_def takeWhile_rev_all)
next
  case True
  then obtain p b where s: "s = p @ CHR ''/'' # b" and b: "CHR ''/'' \<notin> set b"
    by (auto dest: split_list_last)
  have "takeWhile (\<lambda>c. c \<noteq> CHR ''/'') (rev b @ CHR ''/'' # rev p) = takeWhile (\<lambda>c. c \<noteq> CHR ''/'') (rev b)"
    by (rule takeWhile_tail) simp
  also have "\<dots> = rev b" using b by (rule takeWhile_rev_all)
  finally have "lastSegment s = b" by (simp add: lastSegment_def s)
  moreover have "last (split CHR ''/'' s) = b"
    using b by (simp add: s split_append split_without)
  ultimately show ?thesis by simp
qed

lemma includesStr_char: "includesStr s [c] \<longleftrightarrow> c \<in> set s"
  by (induction s) auto

lemma imageBaseName_lastSegment: "imageBaseName s = lastSegment s"
proof (cases "CHR ''/'' \<in> set s")
  case True
  then show ?thesis by (simp add: imageBaseName_def includesStr_char last_split)
next
  case False
  then show ?thesis
    by (simp add: imageBaseName_def includesStr_char lastSegment_def takeWhile_rev_all)
qed

lemma repoName_segment: "repoName s = segmentRepository s"
proof -
  obtain rest where "split CHR '':'' (lastSegment s)
      = takeWhile (\<lambda>x. x \<noteq> CHR '':'') (lastSegment s) # rest"
    using split_unfold [of "CHR '':''" "lastSegment s"] by blast
  then show ?thesis
    by (simp add: repoName_def segmentRepository_def imageBaseName_lastSegment)
qed

lemma originalTag_segment: "originalTag s = segmentTag s"
proof (cases "CHR '':'' \<in> set (lastSegment s)")
  case False
  then show ?thesis
    by (simp add: originalTag_def segmentTag_def imageBaseName_lastSegment split_without)
next
  case True
  let ?P = "\<lambda>x. x \<noteq> CHR '':''"
  from True have ne: "dropWhile ?P (lastSegment s) \<noteq> []" by auto
  then obtain x rest where d: "dropWhile ?P (lastSegment s) = x # rest"
    by (cases "dropWhile ?P (lastSegment s)") auto
  obtain more where r: "split CHR '':'' rest = takeWhile ?P rest # more"
    using split_unfold [of "CHR '':''" rest] by blast
  have "split CHR '':'' (lastSegment s) = takeWhile ?P (lastSegment s) # takeWhile ?P rest # more"
    by (subst split_unfold) (simp add: d r)
  with True d show ?thesis
    by (simp add: originalTag_def segmentTag_def imageBaseName_lastSegment)
qed

lemma pusher_localNames:
  "\<exists>r w'. pushImagesToLocalRegistry sh env names w = (Inr r, w')
     \<and> map localName (pushedImages r) =
         concat (map (\<lambda>n. [originalLocalImageName (localRegistryUrl env) n,
                           latestLocalImageName (localRegistryUrl env) n]) names)"
proof -
  let ?url = "localRegistryUrl env"
  obtain r0 w1 where p: "probeRegistry sh ?url \<lparr>errors = [], warnings = [], pushedImages = []\<rparr> w = (r0, w1)"
    by (cases "probeRegistry sh ?url \<lparr>errors = [], warnings = [], pushedImages = []\<rparr> w")
  obtain r w2 where e: "pushEach sh ?url names r0 w1 = (r, w2)"
    by (cases "pushEach sh ?url names r0 w1")
  have run: "pushImagesToLocalRegistry sh env names w = (Inr r, w2)"
    by (simp add: pushImagesToLocalRegistry_def p e)
  have "map shape (pushedImages r) = concat (map (expectedShapes ?url) names)"
    using pushEach_shapes [OF e] probeRegistry_run [OF p] by simp
  then have "map (fst \<circ> snd) (map shape (pushedImages r))
      = map (fst \<circ> snd) (concat (map (expectedShapes ?url) names))" by simp
  then have "map localName (pushedImages r)
      = concat (map (\<lambda>n. [originalLocalImageName ?url n, latestLocalImageName ?url n]) names)"
    by (simp add: shape_def comp_def map_concat expectedShapes_def)
  with run show ?thesis by blast
qed

text \<open>
  C9. The repository and tag that the pusher derives are those of the last path segment
  of the reference, so everything before the last slash is discarded. Two distinct
  references with the same repository and tag get the same versioned target and the same
  latest target, \<^verbatim>\<open>registry/repository:tag\<close> and \<^verbatim>\<open>registry/repository:latest\<close>.
  The commands of the second reference tag its image as these targets and push them.
  Pushed one after the other, the log is the probe, the run of the first reference and then
  the run of the second; when both succeed, the first run pushes the two targets and the
  second run pushes the same two targets again, now naming the second image. On a registry
  that keeps the last image pushed to a target, the targets end up holding the second
  image.
\<close>

theorem same_repository_and_tag_same_targets:
  assumes "a \<noteq> b" "segmentRepository a = segmentRepository b" "segmentTag a = segmentTag b"
  shows "originalLocalImageName url a = originalLocalImageName url b
       \<and> latestLocalImageName url a = latestLocalImageName url b
       \<and> originalLocalImageName url a = url @ ''/'' @ segmentRepository a @ '':'' @ segmentTag a
       \<and> latestLocalImageName url a = url @ ''/'' @ segmentRepository a @ '':latest''
       \<and> (\<exists>r w'. pushImagesToLocalRegistry sh env [a, b] w = (Inr r, w')
             \<and> map localName (pushedImages r) =
                 [originalLocalImageName (localRegistryUrl env) a, latestLocalImageName (localRegistryUrl env) a,
                  originalLocalImageName (localRegistryUrl env) a, latestLocalImageName (localRegistryUrl env) a])
       \<and> pushSteps url b =
            [Exec (tagCommand b (originalLocalImageName url a)),
             Exec (pushCommand (originalLocalImageName url a)),
             Exec (tagCommand b (latestLocalImageName url a)),
             Exec (pushCommand (latestLocalImageName url a)),
             Exec (rmiCommand (originalLocalImageName url a)),
             Exec (rmiCommand (latestLocalImageName url a))]
       \<and> (\<exists>r w' ok0 ea ma eb mb. pushImagesToLocalRegistry sh env [a, b] w = (Inr r, w')
             \<and> since w w' = (Exec (probeCommand (localRegistryUrl env)), ok0) # ea @ eb
             \<and> legalRun (localRegistryUrl env) a ea ma \<and> legalRun (localRegistryUrl env) b eb mb
             \<and> pushedImages r = outcomesOf (localRegistryUrl env) a ma @ outcomesOf (localRegistryUrl env) b mb
             \<and> (ma = None \<and> mb = None \<longrightarrow>
                   ea ! 1 = (Exec (pushCommand (originalLocalImageName (localRegistryUrl env) a)), True)
                 \<and> ea ! 3 = (Exec (pushCommand (latestLocalImageName (localRegistryUrl env) a)), True)
                 \<and> eb ! 1 = (Exec (pushCommand (originalLocalImageName (localRegistryUrl env) a)), True)
                 \<and> eb ! 3 = (Exec (pushCommand (latestLocalImageName (localRegistryUrl env) a)), True)))"
proof -
  let ?U = "localRegistryUrl env"
  have eq: "originalLocalImageName u a = originalLocalImageName u b"
      "latestLocalImageName u a = latestLocalImageName u b" for u
    using assms(2,3)
    by (simp_all add: originalLocalImageName_def latestLocalImageName_def repoName_segment originalTag_segment)
  have names: "originalLocalImageName url a = url @ ''/'' @ segmentRepository a @ '':'' @ segmentTag a"
      "latestLocalImageName url a = url @ ''/'' @ segmentRepository a @ '':latest''"
    by (simp_all add: originalLocalImageName_def latestLocalImageName_def repoName_segment originalTag_segment)
  have locals: "\<exists>r w'. pushImagesToLocalRegistry sh env [a, b] w = (Inr r, w')
             \<and> map localName (pushedImages r) =
                 [originalLocalImageName ?U a, latestLocalImageName ?U a,
                  originalLocalImageName ?U a, latestLocalImageName ?U a]"
    using pusher_localNames [of sh env "[a, b]" w] eq by simp
  have steps: "pushSteps u b =
            [Exec (tagCommand b (originalLocalImageName u a)),
             Exec (pushCommand (originalLocalImageName u a)),
             Exec (tagCommand b (latestLocalImageName u a)),
             Exec (pushCommand (latestLocalImageName u a)),
             Exec (rmiCommand (originalLocalImageName u a)),
             Exec (rmiCommand (latestLocalImageName u a))]" for u
    by (simp add: pushSteps_def eq)
  from pusher_runs [of sh env "[a, b]" w] obtain pr w' ok0 runs
    where run: "pushImagesToLocalRegistry sh env [a, b] w = (Inr pr, w')"
      and len: "length runs = length [a, b]"
      and log: "since w w' = (Exec (probeCommand ?U), ok0) # concat (map fst runs)"
      and legal: "\<forall>i<length [a, b]. legalRun ?U ([a, b] ! i) (fst (runs ! i)) (snd (runs ! i))"
      and outs: "pushedImages pr = concat (map (\<lambda>(n, run). outcomesOf ?U n (snd run)) (zip [a, b] runs))"
    by blast
  from len obtain ra rb where runs: "runs = [ra, rb]"
    by (auto simp: length_Suc_conv eval_nat_numeral)
  have la: "legalRun ?U a (fst ra) (snd ra)" using legal [rule_format, of 0] runs by simp
  have lb: "legalRun ?U b (fst rb) (snd rb)" using legal [rule_format, of 1] runs by simp
  have both: "snd ra = None \<and> snd rb = None \<longrightarrow>
                   fst ra ! 1 = (Exec (pushCommand (originalLocalImageName ?U a)), True)
                 \<and> fst ra ! 3 = (Exec (pushCommand (latestLocalImageName ?U a)), True)
                 \<and> fst rb ! 1 = (Exec (pushCommand (originalLocalImageName ?U a)), True)
                 \<and> fst rb ! 3 = (Exec (pushCommand (latestLocalImageName ?U a)), True)"
    using la lb by (auto simp: legalRun_def steps) (simp_all add: pushSteps_def)
  have "\<exists>r w' ok0 ea ma eb mb. pushImagesToLocalRegistry sh env [a, b] w = (Inr r, w')
             \<and> since w w' = (Exec (probeCommand ?U), ok0) # ea @ eb
             \<and> legalRun ?U a ea ma \<and> legalRun ?U b eb mb
             \<and> pushedImages r = outcomesOf ?U a ma @ outcomesOf ?U b mb
             \<and> (ma = None \<and> mb = None \<longrightarrow>
                   ea ! 1 = (Exec (pushCommand (originalLocalImageName ?U a)), True)
                 \<and> ea ! 3 = (Exec (pushCommand (latestLocalImageName ?U a)), True)
                 \<and> eb ! 1 = (Exec (pushCommand (originalLocalImageName ?U a)), True)
                 \<and> eb ! 3 = (Exec (pushCommand (latestLocalImageName ?U a)), True))"
    using run log outs la lb both unfolding runs
    by (intro exI [of _ pr] exI [of _ w'] exI [of _ ok0] exI [of _ "fst ra"] exI [of _ "snd ra"]
          exI [of _ "fst rb"] exI [of _ "snd rb"]) simp
  with eq names locals steps show ?thesis by simp
qed

theorem same_repository_and_tag_same_targets_witness:
  "originalLocalImageName ''registry:5001'' ''teamA/app:1.0'' = ''registry:5001/app:1.0''
   \<and> originalLocalImageName ''registry:5001'' ''teamB/app:1.0'' = ''registry:5001/app:1.0''
   \<and> latestLocalImageName ''registry:5001'' ''teamA/app:1.0'' = latestLocalImageName ''registry:5001'' ''teamB/app:1.0''
   \<and> snd (tools (snd (pushImagesToLocalRegistry twoTeamsShell (Some ''registry:5001'')
                        [''teamA/app:1.0'', ''teamB/app:1.0''] twoTeamsWorld)))
       = [(''registry:5001/app:latest'', ''teamB/app:1.0''), (''registry:5001/app:1.0'', ''teamB/app:1.0''),
          (''registry:5001/app:latest'', ''teamA/app:1.0''), (''registry:5001/app:1.0'', ''teamA/app:1.0'')]"
proof -
  have "''teamA/app:1.0'' \<noteq> ''teamB/app:1.0''"
       "segmentRepository ''teamA/app:1.0'' = segmentRepository ''teamB/app:1.0''"
       "segmentTag ''teamA/app:1.0'' = segmentTag ''teamB/app:1.0''"
    by (simp_all add: segment_defs)
  from same_repository_and_tag_same_targets [OF this, of "''registry:5001''" twoTeamsShell
         "Some ''registry:5001''" twoTeamsWorld]
  show ?thesis by (simp add: segment_defs run_defs registry_defs)
qed

end
